theory Spec2Isabelle
  imports Main "HOL-Library.Word" "HOL-Library.AList"
begin

section \<open>Command runner: adaptive polling\<close>

text \<open>
  \<^verbatim>\<open>commandRunnerRoutine\<close> keeps three constants and two loop variables, all of type
  \<^verbatim>\<open>time.Duration\<close> (a signed 64-bit count of nanoseconds). They are modelled as
  integers; lemma \<open>commandRunnerLoop_range\<close> below shows that the accumulator never
  leaves the interval from zero to the burst window, so the 64-bit addition of the source
  never wraps.
\<close>

type_synonym duration = int

definition Millisecond :: duration where
  "Millisecond = 1000000"

definition Second :: duration where
  "Second = 1000 * Millisecond"

definition defaultSleep :: duration where
  "defaultSleep = Second * 5"

definition tgtBurstDur :: duration where
  "tgtBurstDur = Second * 30"

definition burstSleep :: duration where
  "burstSleep = Millisecond * 500"

text \<open>
  The three outcomes of \<^verbatim>\<open>h.forwarder.Client.FetchCommand()\<close> that the loop tells
  apart: a command (\<^verbatim>\<open>err == nil\<close>), the sentinel \<^verbatim>\<open>api.ErrNothingToDo\<close>, and any
  other error.
\<close>

datatype 'cmd fetched = Received 'cmd | NothingToDo | FetchFailed

text \<open>
  The loop variables \<^verbatim>\<open>sleep\<close> and \<^verbatim>\<open>burstDur\<close>, together with what the loop does to
  the outside: the commands handed to \<^verbatim>\<open>handleManagerCommand\<close> (and then posted back)
  and the arguments of the successive \<^verbatim>\<open>time.Sleep\<close> calls.
\<close>

record 'cmd runner =
  sleep :: duration
  burstDur :: duration
  handled :: "'cmd list"
  slept :: "duration list"

definition runnerInit :: "'cmd runner" where
  "runnerInit = \<lparr>sleep = defaultSleep, burstDur = 0, handled = [], slept = []\<rparr>"

text \<open>One iteration of the \<^verbatim>\<open>for\<close> loop.\<close>

definition commandRunnerStep :: "'cmd fetched \<Rightarrow> 'cmd runner \<Rightarrow> 'cmd runner" where
  "commandRunnerStep f r =
     (let r1 = (case f of
                  Received cmd \<Rightarrow>
                    r\<lparr>sleep := burstSleep, burstDur := 0, handled := handled r @ [cmd]\<rparr>
                | NothingToDo \<Rightarrow> r
                | FetchFailed \<Rightarrow> r);
          r2 = (if tgtBurstDur \<le> burstDur r1 then r1\<lparr>sleep := defaultSleep\<rparr> else r1);
          r3 = (if sleep r2 = burstSleep then r2\<lparr>burstDur := burstDur r2 + sleep r2\<rparr> else r2)
      in r3\<lparr>slept := slept r3 @ [sleep r3]\<rparr>)"

text \<open>
  The loop never returns. Its behaviour is observed on finite prefixes of the sequence
  of fetch outcomes: \<open>commandRunnerLoop fs r\<close> is the state after one iteration per
  element of \<open>fs\<close>.
\<close>

fun commandRunnerLoop :: "'cmd fetched list \<Rightarrow> 'cmd runner \<Rightarrow> 'cmd runner" where
  "commandRunnerLoop [] r = r"
| "commandRunnerLoop (f # fs) r = commandRunnerLoop fs (commandRunnerStep f r)"

section \<open>Errors\<close>

text \<open>
  Go errors are values. \<open>Failure\<close> stands for an error produced by a collaborator or by
  the operating system (its message is kept as a string); the other constructors are the
  errors that \<^verbatim>\<open>fmt.Errorf\<close> builds in the agent itself.
\<close>

datatype error =
    Failure string
  | RulesIntegrity
  | ContainerIntegrity string
  | LoadingContainers error
  | LoadRules error

section \<open>Files\<close>

text \<open>
  A path is a string whose elements are separated by \<open>PathSeparator\<close>, written \<^verbatim>\<open>/\<close>.
  \<^verbatim>\<open>filepath.Clean\<close> and \<^verbatim>\<open>filepath.Join\<close> are modelled as the Go library documents them:
  empty elements and \<^verbatim>\<open>.\<close> elements are dropped, a \<^verbatim>\<open>..\<close> element removes the element
  before it (and is dropped at the root, kept at the start of a relative path), the
  empty result is \<^verbatim>\<open>.\<close>, and \<^verbatim>\<open>Join\<close> cleans its elements joined by the separator, from the
  first one that is not empty. A separator inside a file name therefore starts a new
  element. The separator is the one of a Unix system.
\<close>

definition PathSeparator :: char where
  "PathSeparator = CHR ''/''"

text \<open>
  The elements of a path: \<open>splitPath\<close> gives the first element and the elements after
  it. A path without a separator is its only element.
\<close>

fun splitPath :: "string \<Rightarrow> string \<times> string list" where
  "splitPath [] = ([], [])"
| "splitPath (c # cs) =
     (let (el, els) = splitPath cs
      in if c = PathSeparator then ([], el # els) else (c # el, els))"

definition pathElements :: "string \<Rightarrow> string list" where
  "pathElements path = (let (el, els) = splitPath path in el # els)"

fun joinElements :: "string list \<Rightarrow> string" where
  "joinElements [] = []"
| "joinElements [el] = el"
| "joinElements (el # el' # els) = el @ PathSeparator # joinElements (el' # els)"

text \<open>
  The elements that survive cleaning; \<open>kept\<close> holds the elements kept so far, the last
  one first.
\<close>

fun cleanElements :: "bool \<Rightarrow> string list \<Rightarrow> string list \<Rightarrow> string list" where
  "cleanElements rooted kept [] = rev kept"
| "cleanElements rooted kept (el # els) =
     (if el = [] \<or> el = ''.'' then cleanElements rooted kept els
      else if el = ''..'' then
        (case kept of
           [] \<Rightarrow> if rooted then cleanElements rooted [] els
                 else cleanElements rooted [''..''] els
         | prev # kept' \<Rightarrow>
             if prev = ''..'' then cleanElements rooted (''..'' # kept) els
             else cleanElements rooted kept' els)
      else cleanElements rooted (el # kept) els)"

definition Clean :: "string \<Rightarrow> string" where
  "Clean path =
     (if path = [] then ''.''
      else let rooted = (hd path = PathSeparator);
               cleaned = joinElements (cleanElements rooted [] (pathElements path))
           in if rooted then PathSeparator # cleaned
              else if cleaned = [] then ''.'' else cleaned)"

definition Join :: "string \<Rightarrow> string \<Rightarrow> string" where
  "Join dir name =
     (if dir \<noteq> [] then Clean (dir @ PathSeparator # name)
      else if name \<noteq> [] then Clean name
      else [])"

text \<open>
  The last element of a path, which is the name of the file in its directory, and the
  path of that directory.
\<close>

definition baseOf :: "string \<Rightarrow> string" where
  "baseOf path = last (pathElements path)"

definition dirOf :: "string \<Rightarrow> string" where
  "dirOf path = joinElements (butlast (pathElements path))"

text \<open>
  The file system maps paths to the bytes of regular files. Paths in \<open>locked\<close> cannot be
  opened, created or written (access is denied, or a directory on the way is missing).
\<close>

record fsys =
  files :: "(string \<times> string) list"
  locked :: "string list"

definition osOpen :: "fsys \<Rightarrow> string \<Rightarrow> error + string" where
  "osOpen fs p =
     (if p \<in> set (locked fs) then Inl (Failure ''open: access denied'')
      else case map_of (files fs) p of
             None \<Rightarrow> Inl (Failure ''open: no such file'')
           | Some bytes \<Rightarrow> Inr bytes)"

text \<open>
  Modelled from the spec: \<^verbatim>\<open>utils.ReadFileString\<close>, a helper of the agent's \<^verbatim>\<open>utils\<close>
  package, reads the locally persisted digest file. Both call sites discard its error;
  the string that comes with an error is taken to be empty, as \<^verbatim>\<open>ioutil.ReadFile\<close> gives
  it.
\<close>

definition ReadFileString :: "fsys \<Rightarrow> string \<Rightarrow> string \<times> error option" where
  "ReadFileString fs p =
     (case osOpen fs p of Inl err \<Rightarrow> ([], Some err) | Inr bytes \<Rightarrow> (bytes, None))"

text \<open>
  \<^verbatim>\<open>ioutil.WriteFile\<close>, and \<^verbatim>\<open>os.Create\<close> followed by the writes to the new file: the file
  is replaced by the data, or the call fails and nothing changes.
\<close>

definition WriteFile :: "string \<Rightarrow> string \<Rightarrow> fsys \<Rightarrow> error option \<times> fsys" where
  "WriteFile p bytes fs =
     (if p \<in> set (locked fs) then (Some (Failure ''write: access denied''), fs)
      else (None, fs\<lparr>files := AList.update p bytes (files fs)\<rparr>))"

definition HasSuffix :: "string \<Rightarrow> string \<Rightarrow> bool" where
  "HasSuffix s suffix =
     (length suffix \<le> length s \<and> drop (length s - length suffix) s = suffix)"

text \<open>
  \<^verbatim>\<open>strings.SplitN(s, sep, 2)\<close> for a separator of one character: the text before the
  first separator and the text after it, or \<open>s\<close> alone when it has no separator.
\<close>

definition SplitN2 :: "string \<Rightarrow> char \<Rightarrow> string list" where
  "SplitN2 s sep =
     (if sep \<in> set s
      then [takeWhile (\<lambda>c. c \<noteq> sep) s, tl (dropWhile (\<lambda>c. c \<noteq> sep) s)]
      else [s])"

section \<open>Collaborators\<close>

text \<open>
  The manager client. Each request returns its value together with an error, as the Go
  methods do, and may change the state \<open>'m\<close> of the manager side, so that two requests
  for the same thing need not be answered alike.
\<close>

record 'm client =
  GetRulesSha256 :: "'m \<Rightarrow> (string \<times> error option) \<times> 'm"
  GetRules :: "'m \<Rightarrow> (string \<times> error option) \<times> 'm"
  GetContainersList :: "'m \<Rightarrow> (string list \<times> error option) \<times> 'm"
  GetContainerSha256 :: "string \<Rightarrow> 'm \<Rightarrow> (string \<times> error option) \<times> 'm"
  GetContainer :: "string \<Rightarrow> 'm \<Rightarrow> (string list \<times> error option) \<times> 'm"

text \<open>
  Hashing (\<^verbatim>\<open>data.Sha256\<close>, \<^verbatim>\<open>utils.Sha256StringArray\<close>), \<^verbatim>\<open>compress/gzip\<close> and the
  directory walk of the \<^verbatim>\<open>fswalker\<close> library: \<open>gzipWrite\<close> is the compressed form of a
  byte string, \<open>gzipNewReader\<close> fails on bytes that are no gzip stream and otherwise gives
  what the reader delivers, and \<open>Walk\<close> gives the items of a walk from a directory, in
  the order the walk yields them, each with the path of a directory (\<^verbatim>\<open>Dirpath\<close>) and the
  names of the files in it (\<^verbatim>\<open>fi.Name()\<close> for each of \<^verbatim>\<open>Files\<close>). Which directories the
  walk visits, and in which order it lists directories and files, is left to the walk.
\<close>

record lib =
  Sha256 :: "string \<Rightarrow> string"
  Sha256StringArray :: "string list \<Rightarrow> string"
  gzipWrite :: "string \<Rightarrow> string"
  gzipNewReader :: "string \<Rightarrow> error + string"
  Walk :: "fsys \<Rightarrow> string \<Rightarrow> (string \<times> string list) list"

section \<open>Events\<close>

text \<open>
  Modelled from the spec: the paths of the event's own, parent and source process
  identifier (\<^verbatim>\<open>pathSysmonProcessGUID\<close>, \<^verbatim>\<open>pathSysmonParentProcessGUID\<close>,
  \<^verbatim>\<open>pathSysmonSourceProcessGUID\<close>, constants of another file of the agent) and the path of
  the engine's scoring annotation (\<^verbatim>\<open>engine.GeneInfoPath\<close>) are kept as distinct names.
\<close>

datatype epath =
    pathSysmonParentProcessGUID
  | pathSysmonProcessGUID
  | pathSysmonSourceProcessGUID
  | GeneInfoPath
  | OtherPath string

text \<open>
  An event (\<^verbatim>\<open>evtx.GoEvtxMap\<close>) maps paths to values; a value is a string or something
  else. \<^verbatim>\<open>GetString\<close> fails on a missing path and on a value that is no string.
\<close>

datatype val = VString string | VOther string

type_synonym event = "(epath \<times> val) list"

definition GetString :: "event \<Rightarrow> epath \<Rightarrow> error + string" where
  "GetString e p =
     (case map_of e p of
        None \<Rightarrow> Inl (Failure ''path not found'')
      | Some (VString s) \<Rightarrow> Inr s
      | Some (VOther _) \<Rightarrow> Inl (Failure ''not a string''))"

definition Del :: "epath \<Rightarrow> event \<Rightarrow> event" where
  "Del p e = AList.delete p e"

text \<open>
  The detection engine of the \<^verbatim>\<open>gene\<close> library, with state \<open>'e\<close> and compiled rules
  \<open>'r\<close>. \<open>LoadDirectory\<close> returns the engine as the load left it, with or without an
  error; \<open>MatchOrFilter\<close> returns the matched names, the criticality and the filtered
  flag, and the event and the engine as the call left them. \<open>compileCanarySysmon\<close> and
  \<open>compileCanaryFSAudit\<close> are \<^verbatim>\<open>GenRuleSysmon().Compile(nil)\<close> and
  \<^verbatim>\<open>GenRuleFSAudit().Compile(nil)\<close> of the canary configuration.
\<close>

record ('e, 'r) engine_ops =
  NewEngine :: "bool \<Rightarrow> 'e"
  SetShowActions :: "bool \<Rightarrow> 'e \<Rightarrow> 'e"
  LoadContainer :: "string \<Rightarrow> string \<Rightarrow> 'e \<Rightarrow> 'e"
  AddRule :: "'r \<Rightarrow> 'e \<Rightarrow> 'e"
  LoadDirectory :: "string \<Rightarrow> fsys \<Rightarrow> 'e \<Rightarrow> error option \<times> 'e"
  Count :: "'e \<Rightarrow> int"
  MatchOrFilter :: "'e \<Rightarrow> event \<Rightarrow> (string list \<times> int \<times> bool) \<times> event \<times> 'e"
  compileCanarySysmon :: "error + 'r"
  compileCanaryFSAudit :: "error + 'r"

section \<open>Configuration and agent state\<close>

text \<open>
  The fields of \<^verbatim>\<open>Config\<close> that the modelled functions read; \<open>FwdLocal\<close> is
  \<^verbatim>\<open>FwdConfig.Local\<close> and \<open>CanariesEnable\<close> is \<^verbatim>\<open>CanariesConfig.Enable\<close>.
\<close>

record config =
  RulesDB :: string
  ContainersDB :: string
  FwdLocal :: bool
  CanariesEnable :: bool
  CritTresh :: int
  EnableHooks :: bool
  EnableFiltering :: bool
  LogAll :: bool

text \<open>
  Modelled from the spec: the activity tracker (a type of another file of the agent) is
  its lookup \<^verbatim>\<open>GetByGuid\<close>, from an identifier to the record of the process or to
  nothing; of the record only the parent identifier is kept.
\<close>

record track =
  ParentProcessGUID :: string

text \<open>
  The fields of \<^verbatim>\<open>HIDS\<close> that the modelled functions read or write. The two counters
  are \<^verbatim>\<open>uint64\<close>. \<open>forwarderLocal\<close> is \<^verbatim>\<open>h.forwarder.Local\<close> and \<open>processTracker\<close> is
  the tracker's lookup.
\<close>

record 'e hids =
  forwarderLocal :: bool
  Engine :: 'e
  eventScanned :: "64 word"
  alertReported :: "64 word"
  flagProcTermEn :: bool
  guid :: string
  processTracker :: "string \<Rightarrow> track option"
  PrintAll :: bool

text \<open>
  What lies outside the agent during a synchronisation: the file system, the manager,
  and the requests sent to the manager so far, in order.
\<close>

datatype call =
    CallGetRulesSha256
  | CallGetRules
  | CallGetContainersList
  | CallGetContainerSha256 string
  | CallGetContainer string

record 'm world =
  disk :: fsys
  mgr :: 'm
  calls :: "call list"

definition request :: "call \<Rightarrow> ('m \<Rightarrow> 'a \<times> 'm) \<Rightarrow> 'm world \<Rightarrow> 'a \<times> 'm world" where
  "request c f w = (let (r, m) = f (mgr w) in (r, w\<lparr>mgr := m, calls := calls w @ [c]\<rparr>))"

section \<open>Rules and containers: staleness, fetch and verification\<close>

definition containerExt :: string where
  "containerExt = ''.cont.gz''"

definition RulesPaths :: "config \<Rightarrow> string \<times> string" where
  "RulesPaths cfg =
     (let path = Join (RulesDB cfg) ''database.gen'';
          sha256Path = path @ ''.sha256''
      in (path, sha256Path))"

definition containerFile :: "string \<Rightarrow> string" where
  "containerFile container = container @ containerExt"

definition containerPaths :: "config \<Rightarrow> string \<Rightarrow> string \<times> string" where
  "containerPaths cfg container =
     (let path = Join (ContainersDB cfg) (containerFile container);
          sha256Path = path @ ''.sha256''
      in (path, sha256Path))"

definition needsRulesUpdate :: "'m client \<Rightarrow> config \<Rightarrow> 'e hids \<Rightarrow> 'm world \<Rightarrow> bool \<times> 'm world" where
  "needsRulesUpdate cl cfg h w =
     (let (_, rulesSha256Path) = RulesPaths cfg
      in if forwarderLocal h then (False, w)
         else let ((sha256, err), w1) = request CallGetRulesSha256 (GetRulesSha256 cl) w
              in case err of
                   Some _ \<Rightarrow> (False, w1)
                 | None \<Rightarrow>
                     let (oldSha256, _) = ReadFileString (disk w1) rulesSha256Path
                     in (oldSha256 \<noteq> sha256, w1))"

definition needsContainerUpdate :: "'m client \<Rightarrow> config \<Rightarrow> string \<Rightarrow> 'm world \<Rightarrow> bool \<times> 'm world" where
  "needsContainerUpdate cl cfg remoteCont w =
     (let (_, locContSha256Path) = containerPaths cfg remoteCont;
          ((remoteSha256, _), w1) =
             request (CallGetContainerSha256 remoteCont) (GetContainerSha256 cl remoteCont) w;
          (localSha256, _) = ReadFileString (disk w1) locContSha256Path
      in (localSha256 \<noteq> remoteSha256, w1))"

fun anyContainerNeedsUpdate :: "'m client \<Rightarrow> config \<Rightarrow> string list \<Rightarrow> 'm world \<Rightarrow> bool \<times> 'm world" where
  "anyContainerNeedsUpdate cl cfg [] w = (False, w)"
| "anyContainerNeedsUpdate cl cfg (cont # containers) w =
     (let (stale, w1) = needsContainerUpdate cl cfg cont w
      in if stale then (True, w1) else anyContainerNeedsUpdate cl cfg containers w1)"

definition needsContainersUpdate :: "'m client \<Rightarrow> config \<Rightarrow> 'e hids \<Rightarrow> 'm world \<Rightarrow> bool \<times> 'm world" where
  "needsContainersUpdate cl cfg h w =
     (if forwarderLocal h then (False, w)
      else let ((containers, err), w1) = request CallGetContainersList (GetContainersList cl) w
           in case err of
                Some _ \<Rightarrow> (False, w1)
              | None \<Rightarrow> anyContainerNeedsUpdate cl cfg containers w1)"

definition fetchRulesFromManager :: "lib \<Rightarrow> 'm client \<Rightarrow> config \<Rightarrow> 'm world \<Rightarrow> error option \<times> 'm world" where
  "fetchRulesFromManager lb cl cfg w =
     (let (rulePath, sha256Path) = RulesPaths cfg
      in if FwdLocal cfg then (None, w)
         else let ((sha256, err), w1) = request CallGetRulesSha256 (GetRulesSha256 cl) w
              in case err of
                   Some e \<Rightarrow> (Some e, w1)
                 | None \<Rightarrow>
                     let ((rules, err), w2) = request CallGetRules (GetRules cl) w1
                     in case err of
                          Some e \<Rightarrow> (Some e, w2)
                        | None \<Rightarrow>
                            if sha256 \<noteq> Sha256 lb rules then (Some RulesIntegrity, w2)
                            else let (_, fs1) = WriteFile sha256Path sha256 (disk w2);
                                     (err, fs2) = WriteFile rulePath rules fs1
                                 in (err, w2\<lparr>disk := fs2\<rparr>))"

text \<open>\<^verbatim>\<open>fmt.Sprintln(e)\<close> for each line of a container, as written to the gzip stream.\<close>

definition containerBytes :: "string list \<Rightarrow> string" where
  "containerBytes cont = concat (map (\<lambda>e. e @ [CHR 0x0A]) cont)"

text \<open>The loop of \<^verbatim>\<open>fetchContainersFromManager\<close> over the names the manager listed.\<close>

fun fetchContainers :: "lib \<Rightarrow> 'm client \<Rightarrow> config \<Rightarrow> string list \<Rightarrow> 'm world \<Rightarrow> error option \<times> 'm world" where
  "fetchContainers lb cl cfg [] w = (None, w)"
| "fetchContainers lb cl cfg (contName # containers) w =
     (let (stale, w1) = needsContainerUpdate cl cfg contName w
      in if stale then
           let ((cont, err), w2) = request (CallGetContainer contName) (GetContainer cl contName) w1
           in case err of
                Some e \<Rightarrow> (Some e, w2)
              | None \<Rightarrow>
                  let compSha256 = Sha256StringArray lb cont;
                      ((sha256, _), w3) =
                         request (CallGetContainerSha256 contName) (GetContainerSha256 cl contName) w2
                  in if compSha256 \<noteq> sha256 then (Some (ContainerIntegrity contName), w3)
                     else let (contPath, contSha256Path) = containerPaths cfg contName
                          in case WriteFile contPath (gzipWrite lb (containerBytes cont)) (disk w3) of
                               (Some e, _) \<Rightarrow> (Some e, w3)
                             | (None, fs1) \<Rightarrow>
                                 let (_, fs2) = WriteFile contSha256Path compSha256 fs1
                                 in fetchContainers lb cl cfg containers (w3\<lparr>disk := fs2\<rparr>)
         else fetchContainers lb cl cfg containers w1)"

definition fetchContainersFromManager :: "lib \<Rightarrow> 'm client \<Rightarrow> config \<Rightarrow> 'm world \<Rightarrow> error option \<times> 'm world" where
  "fetchContainersFromManager lb cl cfg w =
     (if FwdLocal cfg then (None, w)
      else let ((containers, err), w1) = request CallGetContainersList (GetContainersList cl) w
           in case err of
                Some e \<Rightarrow> (Some e, w1)
              | None \<Rightarrow> fetchContainers lb cl cfg containers w1)"

section \<open>Engine rebuild\<close>

definition newActionnableEngine :: "('e, 'r) engine_ops \<Rightarrow> 'e" where
  "newActionnableEngine ops = SetShowActions ops True (NewEngine ops False)"

text \<open>
  The inner loop of \<^verbatim>\<open>loadContainers\<close> over the files of one walked directory, and the
  outer loop over the items of the walk; the pair carries \<^verbatim>\<open>lastErr\<close> and the engine.
\<close>

fun loadContainerFiles ::
  "lib \<Rightarrow> ('e, 'r) engine_ops \<Rightarrow> fsys \<Rightarrow> string \<Rightarrow> string list \<Rightarrow> error option \<times> 'e \<Rightarrow> error option \<times> 'e" where
  "loadContainerFiles lb ops fs dirpath [] acc = acc"
| "loadContainerFiles lb ops fs dirpath (name # names) (lastErr, e) =
     (let path = Join dirpath name
      in if HasSuffix name containerExt then
           let cont = hd (SplitN2 name CHR ''.'')
           in case osOpen fs path of
                Inl err \<Rightarrow> loadContainerFiles lb ops fs dirpath names (Some err, e)
              | Inr bytes \<Rightarrow>
                  (case gzipNewReader lb bytes of
                     Inl err \<Rightarrow> loadContainerFiles lb ops fs dirpath names (Some err, e)
                   | Inr r \<Rightarrow>
                       loadContainerFiles lb ops fs dirpath names (lastErr, LoadContainer ops cont r e))
         else loadContainerFiles lb ops fs dirpath names (lastErr, e))"

fun loadWalkItems ::
  "lib \<Rightarrow> ('e, 'r) engine_ops \<Rightarrow> fsys \<Rightarrow> (string \<times> string list) list \<Rightarrow> error option \<times> 'e \<Rightarrow> error option \<times> 'e" where
  "loadWalkItems lb ops fs [] acc = acc"
| "loadWalkItems lb ops fs ((dirpath, names) # wis) acc =
     loadWalkItems lb ops fs wis (loadContainerFiles lb ops fs dirpath names acc)"

definition loadContainers ::
  "lib \<Rightarrow> ('e, 'r) engine_ops \<Rightarrow> config \<Rightarrow> fsys \<Rightarrow> 'e hids \<Rightarrow> error option \<times> 'e hids" where
  "loadContainers lb ops cfg fs h =
     (let (lastErr, e) = loadWalkItems lb ops fs (Walk lb fs (ContainersDB cfg)) (None, Engine h)
      in (lastErr, h\<lparr>Engine := e\<rparr>))"

definition addCanaryRule :: "('e, 'r) engine_ops \<Rightarrow> error + 'r \<Rightarrow> 'e \<Rightarrow> 'e" where
  "addCanaryRule ops compiled e = (case compiled of Inl err \<Rightarrow> e | Inr scr \<Rightarrow> AddRule ops scr e)"

text \<open>
  The canary block of \<^verbatim>\<open>updateEngine\<close>: the Sysmon rule, then the file system audit
  rule; a rule that does not compile is logged and left out.
\<close>

definition loadCanaryRules :: "('e, 'r) engine_ops \<Rightarrow> 'e \<Rightarrow> 'e" where
  "loadCanaryRules ops e =
     addCanaryRule ops (compileCanaryFSAudit ops) (addCanaryRule ops (compileCanarySysmon ops) e)"

text \<open>
  \<^verbatim>\<open>updateEngine\<close> in two parts. \<open>fetchUpdates\<close> is the first part (staleness checks and
  fetches); it returns \<^verbatim>\<open>reloadRules\<close> and \<^verbatim>\<open>reloadContainers\<close> as they stand before the
  rebuild. \<open>rebuildEngine\<close> is the second part.
\<close>

definition fetchUpdates ::
  "lib \<Rightarrow> 'm client \<Rightarrow> config \<Rightarrow> 'e hids \<Rightarrow> 'm world \<Rightarrow> (bool \<times> bool) \<times> 'm world" where
  "fetchUpdates lb cl cfg h w =
     (let (reloadRules, w1) = needsRulesUpdate cl cfg h w;
          (reloadContainers, w2) = needsContainersUpdate cl cfg h w1;
          (reloadRules, w3) =
             (if reloadRules then
                (case fetchRulesFromManager lb cl cfg w2 of
                   (Some err, w') \<Rightarrow> (False, w')
                 | (None, w') \<Rightarrow> (True, w'))
              else (False, w2));
          (reloadContainers, w4) =
             (if reloadContainers then
                (case fetchContainersFromManager lb cl cfg w3 of
                   (Some err, w') \<Rightarrow> (False, w')
                 | (None, w') \<Rightarrow> (True, w'))
              else (False, w3))
      in ((reloadRules, reloadContainers), w4))"

definition rebuildEngine ::
  "lib \<Rightarrow> ('e, 'r) engine_ops \<Rightarrow> config \<Rightarrow> bool \<Rightarrow> bool \<Rightarrow> bool \<Rightarrow> fsys \<Rightarrow> 'e hids \<Rightarrow> error option \<times> 'e hids" where
  "rebuildEngine lb ops cfg force reloadRules reloadContainers fs h =
     (if reloadRules \<or> reloadContainers \<or> force then
        let h1 = h\<lparr>Engine := newActionnableEngine ops\<rparr>
        in case loadContainers lb ops cfg fs h1 of
             (Some err, h2) \<Rightarrow> (Some (LoadingContainers err), h2)
           | (None, h2) \<Rightarrow>
               if reloadRules \<or> force then
                 let h3 = (if CanariesEnable cfg
                           then h2\<lparr>Engine := loadCanaryRules ops (Engine h2)\<rparr>
                           else h2)
                 in case LoadDirectory ops (RulesDB cfg) fs (Engine h3) of
                      (Some err, e) \<Rightarrow> (Some (LoadRules err), h3\<lparr>Engine := e\<rparr>)
                    | (None, e) \<Rightarrow> (None, h3\<lparr>Engine := e\<rparr>)
               else (None, h2)
      else (None, h))"

definition updateEngine ::
  "lib \<Rightarrow> 'm client \<Rightarrow> ('e, 'r) engine_ops \<Rightarrow> config \<Rightarrow> bool \<Rightarrow> 'e hids \<Rightarrow> 'm world
     \<Rightarrow> error option \<times> 'e hids \<times> 'm world" where
  "updateEngine lb cl ops cfg force h w =
     (let ((reloadRules, reloadContainers), w') = fetchUpdates lb cl cfg h w;
          (err, h') = rebuildEngine lb ops cfg force reloadRules reloadContainers (disk w') h
      in (err, h', w'))"

section \<open>Event ingestion\<close>

text \<open>
  The conversion of a raw record \<open>'x\<close> (\<^verbatim>\<open>wevtapi.XMLEvent\<close>) goes through JSON:
  \<open>Marshal\<close> is \<^verbatim>\<open>json.Marshal(xe.ToJSONEvent())\<close> and \<open>Unmarshal\<close> is \<^verbatim>\<open>json.Unmarshal\<close>
  into the empty map, returning the map as it was filled. \<open>isSysmonProcessTerminate\<close>,
  a predicate of another file of the agent, is a parameter.
\<close>

record 'x decoder =
  Marshal :: "'x \<Rightarrow> string \<times> error option"
  Unmarshal :: "string \<Rightarrow> event \<times> error option"
  isSysmonProcessTerminate :: "event \<Rightarrow> bool"

definition XMLEventToGoEvtxMap :: "'x decoder \<Rightarrow> 'x \<Rightarrow> event \<times> error option" where
  "XMLEventToGoEvtxMap dc xe =
     (let ge = []
      in case Marshal dc xe of
           (bytes, Some err) \<Rightarrow> (ge, Some err)
         | (bytes, None) \<Rightarrow>
             (case Unmarshal dc bytes of
                (ge', Some err) \<Rightarrow> (ge', Some err)
              | (ge', None) \<Rightarrow> (ge', None)))"

text \<open>
  The two hook managers. \<^verbatim>\<open>RunHooksOn(h, event)\<close> may change the agent and the event in
  place; the hook bodies are not modelled.
\<close>

record 'e hooks =
  preHooks :: "'e hids \<Rightarrow> event \<Rightarrow> 'e hids \<times> event"
  postHooks :: "'e hids \<Rightarrow> event \<Rightarrow> 'e hids \<times> event"

text \<open>
  What the loop itself does to the outside, in order: log lines, the runs of the hook
  managers and of the engine (with the event handed to them), the events piped to the
  forwarder and the events printed.
\<close>

datatype action =
    LogError error
  | LogWarn
  | PreHooksRun event
  | Matched event
  | Piped event
  | PostHooksRun event
  | Printed event

definition IsHIDSEvent :: "'e hids \<Rightarrow> event \<Rightarrow> bool" where
  "IsHIDSEvent h e =
     (if (case GetString e pathSysmonParentProcessGUID of
            Inr pguid \<Rightarrow> pguid = guid h
          | Inl err \<Rightarrow> False) then True
      else if (case GetString e pathSysmonProcessGUID of
                 Inr g \<Rightarrow>
                   g = guid h \<or>
                   (case processTracker h g of
                      Some pt \<Rightarrow> ParentProcessGUID pt = guid h
                    | None \<Rightarrow> False)
               | Inl err \<Rightarrow> False) then True
      else if (case GetString e pathSysmonSourceProcessGUID of
                 Inr sguid \<Rightarrow>
                   sguid = guid h \<or>
                   (case processTracker h sguid of
                      Some pt \<Rightarrow> ParentProcessGUID pt = guid h
                    | None \<Rightarrow> False)
               | Inl err \<Rightarrow> False) then True
      else False)"

text \<open>
  The loop body of \<^verbatim>\<open>Run\<close> from the engine match to the counter (the part that the
  jump to \<^verbatim>\<open>LoopTail\<close> passes over). The configuration is read and never written.
\<close>

definition detect ::
  "('e, 'r) engine_ops \<Rightarrow> 'e hooks \<Rightarrow> config \<Rightarrow> event \<Rightarrow> 'e hids \<times> action list \<Rightarrow> 'e hids \<times> action list" where
  "detect ops hk cfg event s =
     (let (h, tr) = s;
          ((n, crit, filtered), event1, eng) = MatchOrFilter ops (Engine h) event;
          h1 = h\<lparr>Engine := eng\<rparr>;
          tr1 = tr @ [Matched event];
          (h2, event2, tr2) =
             (if n \<noteq> [] \<or> filtered then
                (if CritTresh cfg \<le> crit then
                   let tr' = (if \<not> PrintAll h1 \<and> \<not> LogAll cfg then tr1 @ [Piped event1] else tr1);
                       (h', event') = postHooks hk h1 event1
                   in (h'\<lparr>alertReported := alertReported h' + 1\<rparr>, event',
                       tr' @ [PostHooksRun event1])
                 else if filtered \<and> EnableFiltering cfg \<and> \<not> PrintAll h1 \<and> \<not> LogAll cfg then
                   let event' = Del GeneInfoPath event1
                   in (h1, event', tr1 @ [Piped event'])
                 else (h1, event1, tr1))
              else (h1, event1, tr1));
          tr3 = (if PrintAll h2 then tr2 @ [Printed event2] else tr2);
          tr4 = (if LogAll cfg then tr3 @ [Piped event2] else tr3)
      in (h2\<lparr>eventScanned := eventScanned h2 + 1\<rparr>, tr4))"

text \<open>One iteration of the loop over the raw records.\<close>

definition processEvent ::
  "'x decoder \<Rightarrow> ('e, 'r) engine_ops \<Rightarrow> 'e hooks \<Rightarrow> config \<Rightarrow> 'x \<Rightarrow> 'e hids \<times> action list
     \<Rightarrow> 'e hids \<times> action list" where
  "processEvent dc ops hk cfg xe s =
     (let (h, tr) = s;
          (event, err) = XMLEventToGoEvtxMap dc xe;
          tr1 = (case err of Some e \<Rightarrow> tr @ [LogError e] | None \<Rightarrow> tr);
          tr2 = (if EnableHooks cfg \<and> \<not> flagProcTermEn h \<and> 0 < eventScanned h \<and>
                    eventScanned h mod 1000 = 0
                 then tr1 @ [LogWarn] else tr1);
          (h1, event1) = preHooks hk h event;
          tr3 = tr2 @ [PreHooksRun event]
      in if IsHIDSEvent h1 event1 \<and> \<not> isSysmonProcessTerminate dc event1 then
           (h1, if PrintAll h1 then tr3 @ [Printed event1] else tr3)
         else detect ops hk cfg event1 (h1, tr3))"

fun eventLoop ::
  "'x decoder \<Rightarrow> ('e, 'r) engine_ops \<Rightarrow> 'e hooks \<Rightarrow> config \<Rightarrow> 'x list \<Rightarrow> 'e hids \<times> action list
     \<Rightarrow> 'e hids \<times> action list" where
  "eventLoop dc ops hk cfg [] s = s"
| "eventLoop dc ops hk cfg (xe # xmlEvents) s =
     eventLoop dc ops hk cfg xmlEvents (processEvent dc ops hk cfg xe s)"

text \<open>Projections of what the loop did.\<close>

fun pipedEvents :: "action list \<Rightarrow> event list" where
  "pipedEvents [] = []"
| "pipedEvents (Piped e # tr) = e # pipedEvents tr"
| "pipedEvents (a # tr) = pipedEvents tr"

fun postHooked :: "action list \<Rightarrow> event list" where
  "postHooked [] = []"
| "postHooked (PostHooksRun e # tr) = e # postHooked tr"
| "postHooked (a # tr) = postHooked tr"

fun matchedEvents :: "action list \<Rightarrow> event list" where
  "matchedEvents [] = []"
| "matchedEvents (Matched e # tr) = e # matchedEvents tr"
| "matchedEvents (a # tr) = matchedEvents tr"

text \<open>
  The contract of a hook manager that the counters and the print mode rest on: a run of
  the hooks leaves the two counters and \<^verbatim>\<open>PrintAll\<close> as they are.
\<close>

definition hookFrame :: "('e hids \<Rightarrow> event \<Rightarrow> 'e hids \<times> event) \<Rightarrow> bool" where
  "hookFrame run =
     (\<forall>h e. eventScanned (fst (run h e)) = eventScanned h \<and>
            alertReported (fst (run h e)) = alertReported h \<and>
            PrintAll (fst (run h e)) = PrintAll h)"

section \<open>Collaborator instances for the examples\<close>

text \<open>
  Stand-ins for the collaborators, used where a theorem is applied to a concrete run: a
  digest and a compression that only tag their input, a walk of the directory tree, a
  manager client that answers every request with fixed values, and an engine that
  records what it is given.
\<close>

text \<open>
  A walk for the examples: the directory itself and then every directory below it that
  holds a file, each with the names of its files, in the order of the file system's
  list.
\<close>

definition treeWalk :: "fsys \<Rightarrow> string \<Rightarrow> (string \<times> string list) list" where
  "treeWalk fs root =
     map (\<lambda>d. (d, map baseOf (filter (\<lambda>p. dirOf p = d) (map fst (files fs)))))
       (remdups (root # filter (\<lambda>d. take (Suc (length root)) d = root @ [PathSeparator])
                          (map (dirOf \<circ> fst) (files fs))))"

definition exampleLib :: lib where
  "exampleLib =
     \<lparr>Sha256 = (\<lambda>s. ''sha256:'' @ s),
      Sha256StringArray = (\<lambda>xs. ''sha256:'' @ concat xs),
      gzipWrite = (\<lambda>s. ''gz:'' @ s),
      gzipNewReader = (\<lambda>b. if take 3 b = ''gz:'' then Inr (drop 3 b)
                              else Inl (Failure ''gzip: invalid header'')),
      Walk = treeWalk\<rparr>"

definition fixedClient ::
  "string \<times> error option \<Rightarrow> string \<times> error option \<Rightarrow> string list \<times> error option
     \<Rightarrow> string \<times> error option \<Rightarrow> string list \<times> error option \<Rightarrow> unit client" where
  "fixedClient rulesSha rulesText names contSha contLines =
     \<lparr>GetRulesSha256 = (\<lambda>m. (rulesSha, m)),
      GetRules = (\<lambda>m. (rulesText, m)),
      GetContainersList = (\<lambda>m. (names, m)),
      GetContainerSha256 = (\<lambda>name m. (contSha, m)),
      GetContainer = (\<lambda>name m. (contLines, m))\<rparr>"

definition exampleConfig :: config where
  "exampleConfig =
     \<lparr>RulesDB = ''rules'', ContainersDB = ''containers'', FwdLocal = False,
      CanariesEnable = False, CritTresh = 5, EnableHooks = True, EnableFiltering = True,
      LogAll = False\<rparr>"

definition exampleWorld :: "unit world" where
  "exampleWorld =
     \<lparr>disk = \<lparr>files = [(''rules/database.gen'', ''old rules''),
                       (''rules/database.gen.sha256'', ''sha256:old rules''),
                       (''containers/blacklist.cont.gz'', ''gz:evil.exe'' @ [CHR 0x0A]),
                       (''containers/blacklist.cont.gz.sha256'', ''sha256:evil.exe'')],
              locked = []\<rparr>,
      mgr = (), calls = []\<rparr>"

text \<open>
  A file system whose container directory holds a good container and, in a directory
  below it, a file that is no gzip stream.
\<close>

definition brokenContainerWorld :: "unit world" where
  "brokenContainerWorld =
     \<lparr>disk = \<lparr>files = [(''rules/database.gen'', ''rule-a''),
                       (''containers/blacklist.cont.gz'', ''gz:evil.exe'' @ [CHR 0x0A]),
                       (''containers/old/broken.cont.gz'', ''not a gzip stream'')],
              locked = []\<rparr>,
      mgr = (), calls = []\<rparr>"

record toy_engine =
  showActions :: bool
  loadedContainers :: "(string \<times> string) list"
  loadedRules :: "string list"

text \<open>
  The recording engine: a container or a rule is appended to what was loaded, the rule
  directory is its file \<^verbatim>\<open>database.gen\<close>, loaded as one rule; a file that cannot be
  opened, or whose text starts with an exclamation mark (a rule that does not compile),
  fails the load. Matching is given by a function of the event, and a match
  annotates the event at \<open>GeneInfoPath\<close>.
\<close>

definition toyOps :: "(event \<Rightarrow> string list \<times> int \<times> bool) \<Rightarrow> (toy_engine, string) engine_ops" where
  "toyOps matcher =
     \<lparr>NewEngine = (\<lambda>trace. \<lparr>showActions = False, loadedContainers = [], loadedRules = []\<rparr>),
      SetShowActions = (\<lambda>b e. e\<lparr>showActions := b\<rparr>),
      LoadContainer = (\<lambda>name bytes e. e\<lparr>loadedContainers := loadedContainers e @ [(name, bytes)]\<rparr>),
      AddRule = (\<lambda>r e. e\<lparr>loadedRules := loadedRules e @ [r]\<rparr>),
      LoadDirectory = (\<lambda>dir fs e.
         case osOpen fs (Join dir ''database.gen'') of
           Inl err \<Rightarrow> (Some err, e)
         | Inr text \<Rightarrow>
             if take 1 text = ''!'' then (Some (Failure ''rule does not compile''), e)
             else (None, e\<lparr>loadedRules := loadedRules e @ [text]\<rparr>)),
      Count = (\<lambda>e. int (length (loadedRules e))),
      MatchOrFilter = (\<lambda>e ev.
         (matcher ev,
          (if fst (matcher ev) \<noteq> [] \<or> snd (snd (matcher ev))
           then AList.update GeneInfoPath (VOther ''signatures'') ev else ev),
          e)),
      compileCanarySysmon = Inr ''canary-sysmon'',
      compileCanaryFSAudit = Inr ''canary-fsaudit''\<rparr>"

definition exampleHids :: "toy_engine hids" where
  "exampleHids =
     \<lparr>forwarderLocal = False,
      Engine = \<lparr>showActions = True, loadedContainers = [],
                loadedRules = [''rule-1'', ''rule-2'', ''rule-3'']\<rparr>,
      eventScanned = 0, alertReported = 0, flagProcTermEn = False, guid = ''{agent}'',
      processTracker = (\<lambda>g. if g = ''{child}'' then Some \<lparr>ParentProcessGUID = ''{agent}''\<rparr>
                             else None),
      PrintAll = False\<rparr>"

text \<open>
  The agent as \<^verbatim>\<open>NewHIDS\<close> has it before the first rebuild, running standalone, and a
  manager that serves a new rule text which does not compile, with its digest.
\<close>

definition startingHids :: "toy_engine hids" where
  "startingHids =
     \<lparr>forwarderLocal = True,
      Engine = \<lparr>showActions = False, loadedContainers = [], loadedRules = []\<rparr>,
      eventScanned = 0, alertReported = 0, flagProcTermEn = False, guid = [],
      processTracker = (\<lambda>g. None), PrintAll = False\<rparr>"

definition brokenRulesClient :: "unit client" where
  "brokenRulesClient =
     fixedClient (''sha256:!broken rule'', None) (''!broken rule'', None) ([], None)
       ([], None) ([], None)"

text \<open>
  Raw records for the examples are short texts that the decoder maps to events; the
  empty record cannot be marshalled and an unknown text cannot be unmarshalled. Process
  termination is Sysmon's event 5.
\<close>

definition exampleDecoder :: "string decoder" where
  "exampleDecoder =
     \<lparr>Marshal = (\<lambda>xe. if xe = [] then ([], Some (Failure ''json: marshal failed''))
                       else (xe, None)),
      Unmarshal = (\<lambda>bytes.
         if bytes = ''{self}'' then
           ([(pathSysmonProcessGUID, VString ''{agent}'')], None)
         else if bytes = ''{self-terminate}'' then
           ([(pathSysmonProcessGUID, VString ''{agent}''),
             (OtherPath ''EventID'', VString ''5'')], None)
         else if bytes = ''{child}'' then
           ([(pathSysmonSourceProcessGUID, VString ''{child}'')], None)
         else if bytes = ''{mimikatz}'' then
           ([(pathSysmonProcessGUID, VString ''{p1}''),
             (OtherPath ''Image'', VString ''mimikatz.exe'')], None)
         else if bytes = ''{svchost}'' then
           ([(pathSysmonProcessGUID, VString ''{p2}''),
             (OtherPath ''Image'', VString ''svchost.exe'')], None)
         else if bytes = ''{notepad}'' then
           ([(pathSysmonProcessGUID, VString ''{p3}''),
             (OtherPath ''Image'', VString ''notepad.exe'')], None)
         else ([], Some (Failure ''unexpected end of JSON input''))),
      isSysmonProcessTerminate = (\<lambda>ev. map_of ev (OtherPath ''EventID'') = Some (VString ''5''))\<rparr>"

text \<open>
  A rule of criticality 10 on one image and a filter rule on another; nothing else
  matches.
\<close>

definition exampleMatcher :: "event \<Rightarrow> string list \<times> int \<times> bool" where
  "exampleMatcher ev =
     (if map_of ev (OtherPath ''Image'') = Some (VString ''mimikatz.exe'')
      then ([''Mimikatz''], 10, False)
      else if map_of ev (OtherPath ''Image'') = Some (VString ''svchost.exe'')
      then ([], 0, True)
      else ([], 0, False))"

text \<open>
  Hooks that note a seen process termination before detection and annotate the event
  after it.
\<close>

definition exampleHooks :: "toy_engine hooks" where
  "exampleHooks =
     \<lparr>preHooks = (\<lambda>h e. (if map_of e (OtherPath ''EventID'') = Some (VString ''5'')
                         then h\<lparr>flagProcTermEn := True\<rparr> else h, e)),
      postHooks = (\<lambda>h e. (h, AList.update (OtherPath ''GeneScore'') (VString ''10'') e))\<rparr>"

section \<open>Auxiliary notions for the statements\<close>

text \<open>
  What the container load is said to do, file by file: \<open>containerLoadError\<close> is the
  error of a file with the container extension that cannot be opened or decompressed,
  \<open>containerLoaded\<close> is the name and the data of one that can, and \<open>lastError\<close> keeps
  the last of a list of errors.
\<close>

definition containerLoadError :: "lib \<Rightarrow> fsys \<Rightarrow> string \<Rightarrow> string \<Rightarrow> error option" where
  "containerLoadError lb fs dirpath name =
     (if HasSuffix name containerExt then
        (case osOpen fs (Join dirpath name) of
           Inl err \<Rightarrow> Some err
         | Inr bytes \<Rightarrow> (case gzipNewReader lb bytes of Inl err \<Rightarrow> Some err | Inr r \<Rightarrow> None))
      else None)"

definition containerLoaded :: "lib \<Rightarrow> fsys \<Rightarrow> string \<Rightarrow> string \<Rightarrow> (string \<times> string) option" where
  "containerLoaded lb fs dirpath name =
     (if HasSuffix name containerExt then
        (case osOpen fs (Join dirpath name) of
           Inl err \<Rightarrow> None
         | Inr bytes \<Rightarrow>
             (case gzipNewReader lb bytes of
                Inl err \<Rightarrow> None
              | Inr r \<Rightarrow> Some (hd (SplitN2 name CHR ''.''), r)))
      else None)"

definition lastError :: "error option \<Rightarrow> error list \<Rightarrow> error option" where
  "lastError lastErr errs = (if errs = [] then lastErr else Some (last errs))"

definition loadAll :: "('e, 'r) engine_ops \<Rightarrow> 'e \<Rightarrow> (string \<times> string) list \<Rightarrow> 'e" where
  "loadAll ops e conts = foldl (\<lambda>e (cont, r). LoadContainer ops cont r e) e conts"

text \<open>
  The files of a walk, each with the path of its directory, in the order of the walk;
  the errors of the container files among them; and the containers among them that
  load.
\<close>

definition walkedFiles :: "(string \<times> string list) list \<Rightarrow> (string \<times> string) list" where
  "walkedFiles walked =
     concat (map (\<lambda>(dirpath, names). map (\<lambda>name. (dirpath, name)) names) walked)"

definition containerErrors :: "lib \<Rightarrow> fsys \<Rightarrow> (string \<times> string list) list \<Rightarrow> error list" where
  "containerErrors lb fs walked =
     List.map_filter (\<lambda>(dirpath, name). containerLoadError lb fs dirpath name) (walkedFiles walked)"

definition containersLoaded ::
  "lib \<Rightarrow> fsys \<Rightarrow> (string \<times> string list) list \<Rightarrow> (string \<times> string) list" where
  "containersLoaded lb fs walked =
     List.map_filter (\<lambda>(dirpath, name). containerLoaded lb fs dirpath name) (walkedFiles walked)"

text \<open>
  A name that an entry of a directory can have: not empty, not \<^verbatim>\<open>.\<close> or \<^verbatim>\<open>..\<close>, and
  without a separator.
\<close>

definition properElement :: "string \<Rightarrow> bool" where
  "properElement name =
     (name \<noteq> [] \<and> name \<noteq> ''.'' \<and> name \<noteq> ''..'' \<and> PathSeparator \<notin> set name)"

text \<open>
  The self-event test as the specification words it: the event's own process identifier,
  or its parent or source process identifier, equals the agent's identifier, or the
  tracker records the agent as the parent of the event's process or source process.
\<close>

definition trackedChildOfAgent :: "'e hids \<Rightarrow> event \<Rightarrow> epath \<Rightarrow> bool" where
  "trackedChildOfAgent h e p =
     (case GetString e p of
        Inr g \<Rightarrow> (case processTracker h g of
                    Some pt \<Rightarrow> ParentProcessGUID pt = guid h
                  | None \<Rightarrow> False)
      | Inl err \<Rightarrow> False)"

definition selfEvent :: "'e hids \<Rightarrow> event \<Rightarrow> bool" where
  "selfEvent h e =
     (GetString e pathSysmonProcessGUID = Inr (guid h) \<or>
      GetString e pathSysmonParentProcessGUID = Inr (guid h) \<or>
      GetString e pathSysmonSourceProcessGUID = Inr (guid h) \<or>
      trackedChildOfAgent h e pathSysmonProcessGUID \<or>
      trackedChildOfAgent h e pathSysmonSourceProcessGUID)"

text \<open>The requests sent between a world and a later one.\<close>

definition newCalls :: "'m world \<Rightarrow> 'm world \<Rightarrow> call list" where
  "newCalls w w' = drop (length (calls w)) (calls w')"

text \<open>\<open>sends P w w'\<close>: from \<open>w\<close> to \<open>w'\<close> only requests satisfying \<open>P\<close> were added.\<close>

definition sends :: "(call \<Rightarrow> bool) \<Rightarrow> 'm world \<Rightarrow> 'm world \<Rightarrow> bool" where
  "sends P w w' = (take (length (calls w)) (calls w') = calls w \<and> list_all P (newCalls w w'))"

section \<open>Properties of paths\<close>

lemma pathElements_Nil: "pathElements [] = [[]]"
  by (simp add: pathElements_def)

lemma pathElements_Cons:
  "pathElements (c # cs) =
     (if c = PathSeparator then [] # pathElements cs
      else (c # hd (pathElements cs)) # tl (pathElements cs))"
  by (simp add: pathElements_def split: prod.splits)

lemma pathElements_nonempty: "pathElements s \<noteq> []"
  by (simp add: pathElements_def split: prod.splits)

lemma pathElements_append_sep:
  "pathElements (a @ PathSeparator # b) = pathElements a @ pathElements b"
proof (induction a)
  case Nil
  then show ?case by (simp add: pathElements_Nil pathElements_Cons)
next
  case (Cons c a)
  have ne: "pathElements a \<noteq> []" by (rule pathElements_nonempty)
  show ?case
  proof (cases "c = PathSeparator")
    case True
    then show ?thesis using Cons.IH by (simp add: pathElements_Cons)
  next
    case False
    then show ?thesis using ne Cons.IH by (simp add: pathElements_Cons)
  qed
qed

lemma pathElements_single: "PathSeparator \<notin> set n \<Longrightarrow> pathElements n = [n]"
  by (induction n) (auto simp: pathElements_Nil pathElements_Cons)

lemma pathElements_append_plain:
  "PathSeparator \<notin> set t \<Longrightarrow>
   pathElements (s @ t) = butlast (pathElements s) @ [last (pathElements s) @ t]"
proof (induction s)
  case Nil
  then show ?case by (simp add: pathElements_single pathElements_Nil)
next
  case (Cons c s)
  have ne: "pathElements s \<noteq> []" by (rule pathElements_nonempty)
  then obtain el els where p: "pathElements s = el # els"
    by (cases "pathElements s") auto
  show ?case
  proof (cases "c = PathSeparator")
    case True
    then show ?thesis using Cons ne by (simp add: pathElements_Cons)
  next
    case False
    then show ?thesis using Cons p by (cases els) (auto simp: pathElements_Cons)
  qed
qed

lemma pathElements_plain: "el \<in> set (pathElements s) \<Longrightarrow> PathSeparator \<notin> set el"
proof (induction s arbitrary: el)
  case Nil
  then show ?case by (simp add: pathElements_Nil)
next
  case (Cons c s)
  have ne: "pathElements s \<noteq> []" by (rule pathElements_nonempty)
  then obtain e es where p: "pathElements s = e # es"
    by (cases "pathElements s") auto
  have e: "PathSeparator \<notin> set e" and es: "\<And>x. x \<in> set es \<Longrightarrow> PathSeparator \<notin> set x"
    using Cons.IH p by simp_all
  show ?case
  proof (cases "c = PathSeparator")
    case True
    with Cons.prems p e es show ?thesis by (auto simp: pathElements_Cons)
  next
    case False
    with Cons.prems p e es show ?thesis by (auto simp: pathElements_Cons)
  qed
qed

lemma cleanElements_snoc:
  assumes "n \<noteq> []" and "n \<noteq> ''.''" and "n \<noteq> ''..''"
  shows "cleanElements rooted kept (els @ [n]) = cleanElements rooted kept els @ [n]"
  using assms
  by (induction rooted kept els rule: cleanElements.induct) (auto split: list.splits)

lemma joinElements_snoc:
  "joinElements (els @ [n]) = (if els = [] then n else joinElements els @ PathSeparator # n)"
  by (induction els rule: joinElements.induct) simp_all

text \<open>
  Cleaning keeps the last element of a path when it is the name of a directory entry:
  the cleaned path is that name, or ends with a separator and that name.
\<close>

lemma Clean_ends:
  assumes "properElement n" and "pathElements path = els @ [n]"
  shows "Clean path = n \<or> (\<exists>pre. Clean path = pre @ PathSeparator # n)"
proof -
  from assms(1) have n: "n \<noteq> []" "n \<noteq> ''.''" "n \<noteq> ''..''" "PathSeparator \<notin> set n"
    by (simp_all add: properElement_def)
  have path: "path \<noteq> []"
  proof
    assume "path = []"
    with assms(2) n(1) show False by (simp add: pathElements_Nil)
  qed
  define rooted where "rooted = (hd path = PathSeparator)"
  define kept where "kept = cleanElements rooted [] els"
  define cleaned where "cleaned = joinElements (cleanElements rooted [] (pathElements path))"
  have "cleanElements rooted [] (pathElements path) = kept @ [n]"
    unfolding kept_def assms(2) by (rule cleanElements_snoc [OF n(1,2,3)])
  then have j: "cleaned = (if kept = [] then n else joinElements kept @ PathSeparator # n)"
    unfolding cleaned_def by (simp only: joinElements_snoc)
  have ne: "cleaned \<noteq> []" using j n(1) by (cases "kept = []") simp_all
  have "Clean path = (if rooted then PathSeparator # cleaned
                       else if cleaned = [] then ''.'' else cleaned)"
    unfolding rooted_def cleaned_def Clean_def Let_def using path by (simp only: if_False)
  then have cl: "Clean path = (if rooted then PathSeparator # cleaned else cleaned)"
    using ne by simp
  show ?thesis
  proof (cases "kept = []")
    case True
    with j have "cleaned = n" by simp
    with cl have "Clean path = n \<or> Clean path = [] @ PathSeparator # n" by simp
    then show ?thesis by blast
  next
    case False
    with j have c: "cleaned = joinElements kept @ PathSeparator # n" by simp
    show ?thesis
    proof (cases rooted)
      case True
      with cl c have "Clean path = (PathSeparator # joinElements kept) @ PathSeparator # n" by simp
      then show ?thesis by blast
    next
      case False
      with cl c have "Clean path = joinElements kept @ PathSeparator # n" by simp
      then show ?thesis by blast
    qed
  qed
qed

lemma Join_ends:
  assumes "properElement n" and "pathElements name = els @ [n]"
  shows "Join d name = n \<or> (\<exists>pre. Join d name = pre @ PathSeparator # n)"
proof (cases "d = []")
  case True
  have "name \<noteq> []"
  proof
    assume "name = []"
    with assms show False by (simp add: properElement_def pathElements_Nil)
  qed
  with True have "Join d name = Clean name" by (simp add: Join_def)
  with Clean_ends [OF assms] show ?thesis by simp
next
  case False
  have "pathElements (d @ PathSeparator # name) = (pathElements d @ els) @ [n]"
    by (simp add: pathElements_append_sep assms(2))
  from Clean_ends [OF assms(1) this] False show ?thesis by (simp add: Join_def)
qed


lemma containerExt_element:
  "x @ containerExt \<noteq> [] \<and> x @ containerExt \<noteq> ''.'' \<and> x @ containerExt \<noteq> ''..''"
proof -
  have long: "8 \<le> length (x @ containerExt)" by (simp add: containerExt_def)
  have "n \<noteq> [] \<and> n \<noteq> ''.'' \<and> n \<noteq> ''..''" if "8 \<le> length n" for n :: string
    using that by auto
  from this [OF long] show ?thesis .
qed

text \<open>
  The path of a container file ends with the container extension, whatever the name of
  the container, and so differs from the path of every digest file.
\<close>

lemma containerFile_last_element:
  shows "properElement (last (pathElements (containerFile c)))"
  and "\<exists>els. pathElements (containerFile c) = els @ [last (pathElements (containerFile c))]"
  and "\<exists>pre. last (pathElements (containerFile c)) = pre @ containerExt"
proof -
  have ext: "PathSeparator \<notin> set containerExt"
    by (simp add: containerExt_def PathSeparator_def)
  have pe: "pathElements (containerFile c) =
              butlast (pathElements c) @ [last (pathElements c) @ containerExt]"
    unfolding containerFile_def by (rule pathElements_append_plain [OF ext])
  then have l: "last (pathElements (containerFile c)) = last (pathElements c) @ containerExt"
    by simp
  have "last (pathElements c) \<in> set (pathElements c)"
    using pathElements_nonempty by simp
  then have "PathSeparator \<notin> set (last (pathElements c))"
    by (rule pathElements_plain)
  then have "PathSeparator \<notin> set (last (pathElements c) @ containerExt)"
    using ext by simp
  with containerExt_element [of "last (pathElements c)"]
  show "properElement (last (pathElements (containerFile c)))"
    unfolding l properElement_def by blast
  from pe l show "\<exists>els. pathElements (containerFile c) = els @ [last (pathElements (containerFile c))]"
    by simp
  from l show "\<exists>pre. last (pathElements (containerFile c)) = pre @ containerExt"
    by blast
qed

lemma containerPaths_ends:
  shows "\<exists>pre. fst (containerPaths cfg c) = pre @ containerExt"
  and "snd (containerPaths cfg c) = fst (containerPaths cfg c) @ ''.sha256''"
proof -
  obtain els where els: "pathElements (containerFile c) = els @ [last (pathElements (containerFile c))]"
    using containerFile_last_element(2) by blast
  obtain pre where pre: "last (pathElements (containerFile c)) = pre @ containerExt"
    using containerFile_last_element(3) by blast
  from Join_ends [OF containerFile_last_element(1) els, of "ContainersDB cfg"] pre
  have "\<exists>pre'. Join (ContainersDB cfg) (containerFile c) = pre' @ containerExt"
  proof (elim disjE exE)
    assume "Join (ContainersDB cfg) (containerFile c) = last (pathElements (containerFile c))"
    with pre show ?thesis by auto
  next
    fix p assume "Join (ContainersDB cfg) (containerFile c) =
                    p @ PathSeparator # last (pathElements (containerFile c))"
    with pre have "Join (ContainersDB cfg) (containerFile c) = (p @ PathSeparator # pre) @ containerExt"
      by simp
    then show ?thesis by blast
  qed
  then show "\<exists>pre. fst (containerPaths cfg c) = pre @ containerExt"
    by (simp add: containerPaths_def Let_def)
  show "snd (containerPaths cfg c) = fst (containerPaths cfg c) @ ''.sha256''"
    by (simp add: containerPaths_def Let_def)
qed

lemma containerPaths_distinct:
  assumes "fst (containerPaths cfg c) \<noteq> fst (containerPaths cfg c')"
  shows "fst (containerPaths cfg c) \<noteq> snd (containerPaths cfg c')"
    and "snd (containerPaths cfg c) \<noteq> fst (containerPaths cfg c')"
    and "snd (containerPaths cfg c) \<noteq> snd (containerPaths cfg c')"
proof -
  obtain p where p: "fst (containerPaths cfg c) = p @ containerExt"
    using containerPaths_ends(1) by blast
  obtain p' where p': "fst (containerPaths cfg c') = p' @ containerExt"
    using containerPaths_ends(1) by blast
  have l1: "last (x @ containerExt) = CHR ''z''" for x by (simp add: containerExt_def)
  have l2: "last (x @ ''.sha256'') = CHR ''6''" for x :: string by simp
  show "fst (containerPaths cfg c) \<noteq> snd (containerPaths cfg c')"
  proof
    assume "fst (containerPaths cfg c) = snd (containerPaths cfg c')"
    then have "last (p @ containerExt) = last (fst (containerPaths cfg c') @ ''.sha256'')"
      by (simp only: p containerPaths_ends(2))
    then show False by (simp only: l1 l2) simp
  qed
  show "snd (containerPaths cfg c) \<noteq> fst (containerPaths cfg c')"
  proof
    assume "snd (containerPaths cfg c) = fst (containerPaths cfg c')"
    then have "last (fst (containerPaths cfg c) @ ''.sha256'') = last (p' @ containerExt)"
      by (simp only: p' containerPaths_ends(2))
    then show False by (simp only: l1 l2) simp
  qed
  show "snd (containerPaths cfg c) \<noteq> snd (containerPaths cfg c')"
    using assms by (simp add: containerPaths_ends(2))
qed

section \<open>Properties of the command runner\<close>

lemma commandRunnerLoop_append:
  "commandRunnerLoop (fs @ gs) r = commandRunnerLoop gs (commandRunnerLoop fs r)"
  by (induction fs arbitrary: r) simp_all

lemma commandRunnerStep_range:
  assumes "0 \<le> burstDur r" and "burstDur r < tgtBurstDur + burstSleep"
  shows "0 \<le> burstDur (commandRunnerStep f r) \<and>
         burstDur (commandRunnerStep f r) < tgtBurstDur + burstSleep"
  using assms
  by (cases f)
     (auto simp: commandRunnerStep_def Let_def tgtBurstDur_def burstSleep_def defaultSleep_def
                 Second_def Millisecond_def)

lemma commandRunnerLoop_range:
  assumes "0 \<le> burstDur r" and "burstDur r < tgtBurstDur + burstSleep"
  shows "0 \<le> burstDur (commandRunnerLoop fs r) \<and>
         burstDur (commandRunnerLoop fs r) < tgtBurstDur + burstSleep"
  using assms
proof (induction fs arbitrary: r)
  case Nil
  then show ?case by simp
next
  case (Cons f fs)
  from commandRunnerStep_range [OF Cons.prems, of f] Cons.IH [of "commandRunnerStep f r"]
  show ?case by simp
qed

lemma commandRunnerLoop_range_int64:
  "burstDur (commandRunnerLoop fs runnerInit) \<in> {0 ..< 2 ^ 63}"
proof -
  have "0 \<le> burstDur (commandRunnerLoop fs runnerInit) \<and>
        burstDur (commandRunnerLoop fs runnerInit) < tgtBurstDur + burstSleep"
    by (rule commandRunnerLoop_range)
       (simp_all add: runnerInit_def tgtBurstDur_def burstSleep_def Second_def Millisecond_def)
  moreover have "tgtBurstDur + burstSleep < 2 ^ 63"
    by (simp add: tgtBurstDur_def burstSleep_def Second_def Millisecond_def)
  ultimately show ?thesis by simp
qed

lemma commandRunnerLoop_slow:
  "tgtBurstDur \<le> burstDur r \<Longrightarrow> \<forall>f \<in> set fs. f = NothingToDo \<or> f = FetchFailed \<Longrightarrow>
   commandRunnerLoop fs r =
     r\<lparr>sleep := (if fs = [] then sleep r else defaultSleep),
       slept := slept r @ replicate (length fs) defaultSleep\<rparr>"
proof (induction fs arbitrary: r)
  case Nil
  then show ?case by simp
next
  case (Cons f fs)
  have step: "commandRunnerStep f r = r\<lparr>sleep := defaultSleep, slept := slept r @ [defaultSleep]\<rparr>"
    using Cons.prems
    by (auto simp: commandRunnerStep_def Let_def defaultSleep_def burstSleep_def
          Second_def Millisecond_def)
  show ?case
    using Cons.prems by (simp add: step Cons.IH replicate_app_Cons_same)
qed

lemma commandRunnerLoop_fast:
  "sleep r = burstSleep \<Longrightarrow> burstDur r = int k * burstSleep \<Longrightarrow> k + length fs \<le> 60 \<Longrightarrow>
   \<forall>f \<in> set fs. f = NothingToDo \<or> f = FetchFailed \<Longrightarrow>
   commandRunnerLoop fs r =
     r\<lparr>burstDur := int (k + length fs) * burstSleep,
       slept := slept r @ replicate (length fs) burstSleep\<rparr>"
proof (induction fs arbitrary: r k)
  case Nil
  then show ?case by simp
next
  case (Cons f fs)
  have lt: "burstDur r < tgtBurstDur"
    using Cons.prems by (simp add: tgtBurstDur_def burstSleep_def Second_def Millisecond_def)
  have step: "commandRunnerStep f r =
     r\<lparr>burstDur := int (Suc k) * burstSleep, slept := slept r @ [burstSleep]\<rparr>"
    using Cons.prems lt
    by (auto simp: commandRunnerStep_def Let_def algebra_simps)
  show ?case
    using Cons.prems Cons.IH [of "commandRunnerStep f r" "Suc k"]
    by (simp add: step replicate_app_Cons_same)
qed

lemma commandRunnerLoop_quiet:
  assumes init: "sleep r = burstSleep" "burstDur r = burstSleep"
    and quiet: "\<forall>f \<in> set fs. f = NothingToDo \<or> f = FetchFailed"
  shows "slept (commandRunnerLoop fs r) =
           slept r @ replicate (min (length fs) 59) burstSleep
                   @ replicate (length fs - 59) defaultSleep"
proof (cases "length fs \<le> 59")
  case True
  from init have "burstDur r = int 1 * burstSleep" by simp
  from commandRunnerLoop_fast [OF init(1) this _ quiet] True
  show ?thesis by (simp add: min_def)
next
  case False
  define fs1 where "fs1 = take 59 fs"
  define fs2 where "fs2 = drop 59 fs"
  have split: "fs = fs1 @ fs2" and len1: "length fs1 = 59" and len2: "length fs2 = length fs - 59"
    using False by (simp_all add: fs1_def fs2_def)
  have q1: "\<forall>f \<in> set fs1. f = NothingToDo \<or> f = FetchFailed"
    and q2: "\<forall>f \<in> set fs2. f = NothingToDo \<or> f = FetchFailed"
    using quiet by (auto simp: fs1_def fs2_def dest: in_set_takeD in_set_dropD)
  from init have "burstDur r = int 1 * burstSleep" by simp
  from commandRunnerLoop_fast [OF init(1) this _ q1] len1
  have mid: "commandRunnerLoop fs1 r =
      r\<lparr>burstDur := 60 * burstSleep, slept := slept r @ replicate 59 burstSleep\<rparr>"
    by simp
  have "tgtBurstDur \<le> burstDur (commandRunnerLoop fs1 r)"
    by (simp add: mid tgtBurstDur_def burstSleep_def Second_def Millisecond_def)
  from commandRunnerLoop_slow [OF this q2]
  have tail: "slept (commandRunnerLoop fs2 (commandRunnerLoop fs1 r)) =
      slept r @ replicate 59 burstSleep @ replicate (length fs2) defaultSleep"
    by (simp add: mid)
  have "commandRunnerLoop fs r = commandRunnerLoop fs2 (commandRunnerLoop fs1 r)"
    by (subst split) (rule commandRunnerLoop_append)
  with tail have "slept (commandRunnerLoop fs r) =
      slept r @ replicate 59 burstSleep @ replicate (length fs - 59) defaultSleep"
    by (simp only: len2)
  with False show ?thesis
    by (simp add: min_def)
qed

lemma commandRunnerStep_Received:
  "commandRunnerStep (Received cmd) r =
     r\<lparr>sleep := burstSleep, burstDur := burstSleep, handled := handled r @ [cmd],
       slept := slept r @ [burstSleep]\<rparr>"
  by (simp add: commandRunnerStep_def Let_def tgtBurstDur_def burstSleep_def Second_def
        Millisecond_def)

lemma commandRunnerStep_quiet:
  assumes "f = NothingToDo \<or> f = FetchFailed" and "sleep r = burstSleep"
  shows "commandRunnerStep f r =
     (if burstDur r < tgtBurstDur
      then r\<lparr>burstDur := burstDur r + burstSleep, slept := slept r @ [burstSleep]\<rparr>
      else r\<lparr>sleep := defaultSleep, slept := slept r @ [defaultSleep]\<rparr>)"
  using assms
  by (auto simp: commandRunnerStep_def Let_def defaultSleep_def burstSleep_def Second_def
        Millisecond_def)

text \<open>
  Claim C8. Receiving a command sets the sleep interval to the fast value and resets the
  accumulator to zero (after the iteration's own tick it holds one fast interval). In an
  iteration without a command that starts at the fast interval, the accumulator grows by
  the fast interval and the loop sleeps the fast interval when the accumulator is below
  the 30 second window, and the interval reverts to the slow default when the accumulator
  has reached the window. After a single command followed by iterations without a
  command, the first 60 sleeps (the one of the command's iteration included) are fast and
  every later one is slow.
\<close>

theorem commandRunner_burst:
  assumes "\<forall>f \<in> set fs. f = NothingToDo \<or> f = FetchFailed"
    and "g = NothingToDo \<or> g = FetchFailed"
    and "sleep q = burstSleep"
  shows "sleep (commandRunnerStep (Received cmd) r) = burstSleep
       \<and> burstDur (commandRunnerStep (Received cmd) r) = 0 + burstSleep
       \<and> handled (commandRunnerStep (Received cmd) r) = handled r @ [cmd]
       \<and> commandRunnerStep g q =
           (if burstDur q < tgtBurstDur
            then q\<lparr>burstDur := burstDur q + burstSleep, slept := slept q @ [burstSleep]\<rparr>
            else q\<lparr>sleep := defaultSleep, slept := slept q @ [defaultSleep]\<rparr>)
       \<and> tgtBurstDur = 60 * burstSleep
       \<and> slept (commandRunnerLoop (Received cmd # fs) r) =
           slept r @ replicate (min (Suc (length fs)) 60) burstSleep
                   @ replicate (Suc (length fs) - 60) defaultSleep"
proof -
  let ?r1 = "commandRunnerStep (Received cmd) r"
  have main: "slept (commandRunnerLoop fs ?r1) =
          slept ?r1 @ replicate (min (length fs) 59) burstSleep
                    @ replicate (length fs - 59) defaultSleep"
    by (rule commandRunnerLoop_quiet) (simp_all add: commandRunnerStep_Received assms(1))
  have "slept (commandRunnerLoop (Received cmd # fs) r) =
           slept r @ replicate (min (Suc (length fs)) 60) burstSleep
                   @ replicate (Suc (length fs) - 60) defaultSleep"
  proof (cases "length fs \<le> 59")
    case True
    with main show ?thesis by (simp add: commandRunnerStep_Received min_def)
  next
    case False
    have "(60::nat) = Suc 59" by simp
    then have "replicate 60 burstSleep = burstSleep # replicate 59 burstSleep"
      by (simp only: replicate_Suc)
    with main False show ?thesis by (simp add: commandRunnerStep_Received min_def)
  qed
  moreover have "tgtBurstDur = 60 * burstSleep"
    by (simp add: tgtBurstDur_def burstSleep_def Second_def Millisecond_def)
  ultimately show ?thesis
    using commandRunnerStep_quiet [OF assms(2,3)]
    by (simp add: commandRunnerStep_Received)
qed

text \<open>
  The scenario of the specification: from the initial state, one command and then
  sixty polls that find nothing. Sixty sleeps of 500 ms are followed by one of 5 s.
\<close>

theorem commandRunner_burst_witness:
  "set (replicate 60 (NothingToDo :: string fetched)) \<subseteq> {NothingToDo, FetchFailed}
   \<and> slept (commandRunnerLoop (Received ''report'' # replicate 60 NothingToDo) runnerInit) =
       replicate 60 500000000 @ [5000000000]
   \<and> commandRunnerStep (NothingToDo :: string fetched)
        \<lparr>sleep = 500000000, burstDur = 30000000000, handled = [], slept = []\<rparr> =
        \<lparr>sleep = 5000000000, burstDur = 30000000000, handled = [], slept = [5000000000]\<rparr>"
proof -
  have q: "\<forall>f \<in> set (replicate 60 (NothingToDo :: string fetched)). f = NothingToDo \<or> f = FetchFailed"
    by simp
  have g: "(NothingToDo :: string fetched) = NothingToDo \<or> (NothingToDo :: string fetched) = FetchFailed"
    by simp
  have s: "sleep \<lparr>sleep = 500000000, burstDur = 30000000000, handled = [] :: string list,
                  slept = []\<rparr> = burstSleep"
    by (simp add: burstSleep_def Millisecond_def)
  from commandRunner_burst [OF q g s, of "''report''" runnerInit]
  show ?thesis
    by (simp add: runnerInit_def burstSleep_def defaultSleep_def tgtBurstDur_def Second_def
          Millisecond_def)
qed

section \<open>Properties of the fetch-and-verify protocol\<close>

lemma fetchRules_mismatch:
  assumes "\<not> FwdLocal cfg"
    and "GetRulesSha256 cl (mgr w) = ((sha256, None), m1)"
    and "GetRules cl m1 = ((rules, None), m2)"
    and "sha256 \<noteq> Sha256 lb rules"
  shows "fetchRulesFromManager lb cl cfg w =
           (Some RulesIntegrity, w\<lparr>mgr := m2, calls := calls w @ [CallGetRulesSha256, CallGetRules]\<rparr>)"
  using assms
  by (simp add: fetchRulesFromManager_def request_def RulesPaths_def Let_def)

lemma fetchContainers_mismatch:
  assumes "needsContainerUpdate cl cfg contName w = (True, w1)"
    and "GetContainer cl contName (mgr w1) = ((cont, None), m2)"
    and "GetContainerSha256 cl contName m2 = ((sha256, err), m3)"
    and "Sha256StringArray lb cont \<noteq> sha256"
  shows "fetchContainers lb cl cfg (contName # containers) w =
           (Some (ContainerIntegrity contName),
            w1\<lparr>mgr := m3,
               calls := calls w1 @ [CallGetContainer contName, CallGetContainerSha256 contName]\<rparr>)"
  using assms
  by (simp add: request_def Let_def)

lemma fetchContainers_append:
  "fetchContainers lb cl cfg pre w = (None, wp) \<Longrightarrow>
   fetchContainers lb cl cfg (pre @ post) w = fetchContainers lb cl cfg post wp"
proof (induction pre arbitrary: w)
  case Nil
  then show ?case by simp
next
  case (Cons c pre)
  then show ?case
    by (auto simp: Let_def split: prod.splits if_splits option.splits)
qed

lemma needsContainerUpdate_disk:
  "needsContainerUpdate cl cfg c w = (b, w1) \<Longrightarrow> disk w1 = disk w"
  by (auto simp: needsContainerUpdate_def request_def Let_def split: prod.splits)

lemma request_disk: "request c f w = (r, w1) \<Longrightarrow> disk w1 = disk w"
  by (auto simp: request_def split: prod.splits)

lemma WriteFile_other:
  "WriteFile q bytes fs = (r, fs') \<Longrightarrow> p \<noteq> q \<Longrightarrow>
   map_of (files fs') p = map_of (files fs) p \<and> locked fs' = locked fs"
  by (auto simp: WriteFile_def update_conv' split: if_splits)

lemma fetchContainers_frame:
  "fetchContainers lb cl cfg cs w = (r, w') \<Longrightarrow>
   \<forall>c \<in> set cs. p \<noteq> fst (containerPaths cfg c) \<and> p \<noteq> snd (containerPaths cfg c) \<Longrightarrow>
   map_of (files (disk w')) p = map_of (files (disk w)) p \<and> locked (disk w') = locked (disk w)"
proof (induction cs arbitrary: w)
  case Nil
  then show ?case by simp
next
  case (Cons c cs)
  obtain stale w1 where n: "needsContainerUpdate cl cfg c w = (stale, w1)"
    by (cases "needsContainerUpdate cl cfg c w") auto
  have d1: "disk w1 = disk w" by (rule needsContainerUpdate_disk [OF n])
  show ?case
  proof (cases stale)
    case False
    with Cons.prems n have "fetchContainers lb cl cfg cs w1 = (r, w')" by simp
    from Cons.IH [OF this] Cons.prems(2) d1 show ?thesis by simp
  next
    case True
    obtain cont err w2 where g: "request (CallGetContainer c) (GetContainer cl c) w1 = ((cont, err), w2)"
      by (cases "request (CallGetContainer c) (GetContainer cl c) w1") auto
    have d2: "disk w2 = disk w" using request_disk [OF g] d1 by simp
    obtain sha e3 w3 where s: "request (CallGetContainerSha256 c) (GetContainerSha256 cl c) w2 = ((sha, e3), w3)"
      by (cases "request (CallGetContainerSha256 c) (GetContainerSha256 cl c) w2") auto
    have d3: "disk w3 = disk w" using request_disk [OF s] d2 by simp
    obtain contPath shaPath where cp: "containerPaths cfg c = (contPath, shaPath)"
      by (cases "containerPaths cfg c") auto
    obtain e4 fs1 where w4: "WriteFile contPath (gzipWrite lb (containerBytes cont)) (disk w3) = (e4, fs1)"
      by (cases "WriteFile contPath (gzipWrite lb (containerBytes cont)) (disk w3)") auto
    obtain e5 fs2 where w5: "WriteFile shaPath (Sha256StringArray lb cont) fs1 = (e5, fs2)"
      by (cases "WriteFile shaPath (Sha256StringArray lb cont) fs1") auto
    have ne: "p \<noteq> contPath" "p \<noteq> shaPath" using Cons.prems(2) cp by auto
    have f1: "map_of (files fs1) p = map_of (files (disk w)) p \<and> locked fs1 = locked (disk w)"
      using WriteFile_other [OF w4 ne(1)] d3 by simp
    have f2: "map_of (files fs2) p = map_of (files (disk w)) p \<and> locked fs2 = locked (disk w)"
      using WriteFile_other [OF w5 ne(2)] f1 by simp
    show ?thesis
    proof (cases "err = None \<and> Sha256StringArray lb cont = sha \<and> e4 = None")
      case True
      with Cons.prems(1) n \<open>stale\<close> g s cp w4 w5
      have "fetchContainers lb cl cfg cs (w3\<lparr>disk := fs2\<rparr>) = (r, w')"
        by (simp add: Let_def)
      from Cons.IH [OF this] Cons.prems(2) f2 show ?thesis by simp
    next
      case False
      have "w' = w2 \<or> w' = w3"
      proof (cases err)
        case (Some e)
        with Cons.prems(1) n \<open>stale\<close> g show ?thesis by (simp add: Let_def)
      next
        case None
        show ?thesis
        proof (cases "Sha256StringArray lb cont = sha")
          case False
          with Cons.prems(1) n \<open>stale\<close> g s None show ?thesis by (simp add: Let_def)
        next
          case True
          with False None obtain e where "e4 = Some e" by auto
          with Cons.prems(1) n \<open>stale\<close> g s None True cp w4 show ?thesis
            by (simp add: Let_def)
        qed
      qed
      with d2 d3 show ?thesis by auto
    qed
  qed
qed

lemma osOpen_cong:
  "map_of (files fs') p = map_of (files fs) p \<Longrightarrow> locked fs' = locked fs \<Longrightarrow>
   osOpen fs' p = osOpen fs p"
  by (simp add: osOpen_def)

lemma fetchContainersFromManager_mismatch:
  assumes conn: "\<not> FwdLocal cfg"
    and lst: "GetContainersList cl (mgr v) = ((pre @ contName # post, None), m0)"
    and before: "fetchContainers lb cl cfg pre
                   (v\<lparr>mgr := m0, calls := calls v @ [CallGetContainersList]\<rparr>) = (None, vp)"
    and stale: "needsContainerUpdate cl cfg contName vp = (True, v1)"
    and got: "GetContainer cl contName (mgr v1) = ((cont, None), m2)"
    and dig: "GetContainerSha256 cl contName m2 = ((sha256, err), m3)"
    and bad: "Sha256StringArray lb cont \<noteq> sha256"
  shows "fetchContainersFromManager lb cl cfg v =
           (Some (ContainerIntegrity contName),
            v1\<lparr>mgr := m3,
               calls := calls v1 @ [CallGetContainer contName, CallGetContainerSha256 contName]\<rparr>)"
    and "disk v1 = disk vp"
    and "fst (containerPaths cfg contName) \<notin> set (map (\<lambda>c. fst (containerPaths cfg c)) pre) \<Longrightarrow>
           osOpen (disk v1) (fst (containerPaths cfg contName)) =
             osOpen (disk v) (fst (containerPaths cfg contName)) \<and>
           osOpen (disk v1) (snd (containerPaths cfg contName)) =
             osOpen (disk v) (snd (containerPaths cfg contName))"
proof -
  let ?v0 = "v\<lparr>mgr := m0, calls := calls v @ [CallGetContainersList]\<rparr>"
  have "fetchContainersFromManager lb cl cfg v =
          fetchContainers lb cl cfg (pre @ contName # post) ?v0"
    using conn lst by (simp add: fetchContainersFromManager_def request_def)
  also have "\<dots> = fetchContainers lb cl cfg (contName # post) vp"
    by (rule fetchContainers_append [OF before])
  also have "\<dots> = (Some (ContainerIntegrity contName),
            v1\<lparr>mgr := m3,
               calls := calls v1 @ [CallGetContainer contName, CallGetContainerSha256 contName]\<rparr>)"
    by (rule fetchContainers_mismatch [OF stale got dig bad])
  finally show "fetchContainersFromManager lb cl cfg v =
           (Some (ContainerIntegrity contName),
            v1\<lparr>mgr := m3,
               calls := calls v1 @ [CallGetContainer contName, CallGetContainerSha256 contName]\<rparr>)" .
  show d1: "disk v1 = disk vp"
    by (rule needsContainerUpdate_disk [OF stale])
  assume fresh: "fst (containerPaths cfg contName) \<notin> set (map (\<lambda>c. fst (containerPaths cfg c)) pre)"
  have a: "\<forall>c \<in> set pre. fst (containerPaths cfg contName) \<noteq> fst (containerPaths cfg c) \<and>
                          fst (containerPaths cfg contName) \<noteq> snd (containerPaths cfg c)"
  proof
    fix c assume "c \<in> set pre"
    with fresh have ne: "fst (containerPaths cfg contName) \<noteq> fst (containerPaths cfg c)" by auto
    from ne containerPaths_distinct(1) [OF ne]
    show "fst (containerPaths cfg contName) \<noteq> fst (containerPaths cfg c) \<and>
          fst (containerPaths cfg contName) \<noteq> snd (containerPaths cfg c)"
      by simp
  qed
  have b: "\<forall>c \<in> set pre. snd (containerPaths cfg contName) \<noteq> fst (containerPaths cfg c) \<and>
                          snd (containerPaths cfg contName) \<noteq> snd (containerPaths cfg c)"
  proof
    fix c assume "c \<in> set pre"
    with fresh have ne: "fst (containerPaths cfg contName) \<noteq> fst (containerPaths cfg c)" by auto
    from containerPaths_distinct(2,3) [OF ne]
    show "snd (containerPaths cfg contName) \<noteq> fst (containerPaths cfg c) \<and>
          snd (containerPaths cfg contName) \<noteq> snd (containerPaths cfg c)"
      by simp
  qed
  have d0: "disk ?v0 = disk v" by simp
  have fa: "map_of (files (disk v1)) (fst (containerPaths cfg contName)) =
            map_of (files (disk v)) (fst (containerPaths cfg contName))"
    and fb: "map_of (files (disk v1)) (snd (containerPaths cfg contName)) =
            map_of (files (disk v)) (snd (containerPaths cfg contName))"
    and lk: "locked (disk v1) = locked (disk v)"
    using fetchContainers_frame [OF before a] fetchContainers_frame [OF before b] d0 d1
    by simp_all
  show "osOpen (disk v1) (fst (containerPaths cfg contName)) =
             osOpen (disk v) (fst (containerPaths cfg contName)) \<and>
        osOpen (disk v1) (snd (containerPaths cfg contName)) =
             osOpen (disk v) (snd (containerPaths cfg contName))"
    using osOpen_cong [OF fa lk] osOpen_cong [OF fb lk] by (rule conjI)
qed


text \<open>
  Claim C1. When the manager is configured, both rule requests succeed and the digest
  computed over the retrieved rules differs from the digest the manager reported,
  \<^verbatim>\<open>fetchRulesFromManager\<close> returns the integrity error and the file system is the one
  before the fetch: neither the rules file nor its digest file is written. In the
  container fetch, when the containers listed before \<open>contName\<close> were handled without
  error, \<open>contName\<close> is fetched, and the digest computed over its lines differs from the
  digest the manager reports for it, the operation fails with that container's integrity
  error and the file system is the one left by the earlier containers; if no container
  listed before it is stored in the same file, its file and its digest file read as they
  did before the fetch.
\<close>

theorem fetch_integrity_failure:
  "(\<not> FwdLocal cfg \<and> GetRulesSha256 cl (mgr w) = ((sha256, None), m1) \<and>
    GetRules cl m1 = ((rules, None), m2) \<and> sha256 \<noteq> Sha256 lb rules
    \<longrightarrow> fetchRulesFromManager lb cl cfg w =
          (Some RulesIntegrity,
           w\<lparr>mgr := m2, calls := calls w @ [CallGetRulesSha256, CallGetRules]\<rparr>)
        \<and> disk (snd (fetchRulesFromManager lb cl cfg w)) = disk w)
   \<and>
   (\<not> FwdLocal cfg \<and> GetContainersList cl (mgr v) = ((pre @ contName # post, None), n0) \<and>
    fetchContainers lb cl cfg pre
      (v\<lparr>mgr := n0, calls := calls v @ [CallGetContainersList]\<rparr>) = (None, vp) \<and>
    needsContainerUpdate cl cfg contName vp = (True, v1) \<and>
    GetContainer cl contName (mgr v1) = ((cont, None), n2) \<and>
    GetContainerSha256 cl contName n2 = ((csha256, err), n3) \<and>
    Sha256StringArray lb cont \<noteq> csha256
    \<longrightarrow> fst (fetchContainersFromManager lb cl cfg v) = Some (ContainerIntegrity contName)
        \<and> disk (snd (fetchContainersFromManager lb cl cfg v)) = disk vp
        \<and> (fst (containerPaths cfg contName) \<notin> set (map (\<lambda>c. fst (containerPaths cfg c)) pre) \<longrightarrow>
             osOpen (disk (snd (fetchContainersFromManager lb cl cfg v)))
                 (fst (containerPaths cfg contName)) =
               osOpen (disk v) (fst (containerPaths cfg contName)) \<and>
             osOpen (disk (snd (fetchContainersFromManager lb cl cfg v)))
                 (snd (containerPaths cfg contName)) =
               osOpen (disk v) (snd (containerPaths cfg contName))))"
proof (intro conjI impI; elim conjE)
  assume "\<not> FwdLocal cfg" and "GetRulesSha256 cl (mgr w) = ((sha256, None), m1)"
    and "GetRules cl m1 = ((rules, None), m2)" and "sha256 \<noteq> Sha256 lb rules"
  then have r: "fetchRulesFromManager lb cl cfg w =
          (Some RulesIntegrity,
           w\<lparr>mgr := m2, calls := calls w @ [CallGetRulesSha256, CallGetRules]\<rparr>)"
    by (rule fetchRules_mismatch)
  then show "fetchRulesFromManager lb cl cfg w =
          (Some RulesIntegrity,
           w\<lparr>mgr := m2, calls := calls w @ [CallGetRulesSha256, CallGetRules]\<rparr>)" .
  from r show "disk (snd (fetchRulesFromManager lb cl cfg w)) = disk w" by simp
next
  assume h1: "\<not> FwdLocal cfg"
    and h2: "GetContainersList cl (mgr v) = ((pre @ contName # post, None), n0)"
    and h3: "fetchContainers lb cl cfg pre
      (v\<lparr>mgr := n0, calls := calls v @ [CallGetContainersList]\<rparr>) = (None, vp)"
    and h4: "needsContainerUpdate cl cfg contName vp = (True, v1)"
    and h5: "GetContainer cl contName (mgr v1) = ((cont, None), n2)"
    and h6: "GetContainerSha256 cl contName n2 = ((csha256, err), n3)"
    and h7: "Sha256StringArray lb cont \<noteq> csha256"
  note m = fetchContainersFromManager_mismatch [OF h1 h2 h3 h4 h5 h6 h7]
  from m(1) show "fst (fetchContainersFromManager lb cl cfg v) = Some (ContainerIntegrity contName)"
    by simp
  from m(1,2) show "disk (snd (fetchContainersFromManager lb cl cfg v)) = disk vp"
    by simp
  assume "fst (containerPaths cfg contName) \<notin> set (map (\<lambda>c. fst (containerPaths cfg c)) pre)"
  from m(3) [OF this] m(1)
  show "osOpen (disk (snd (fetchContainersFromManager lb cl cfg v)))
                 (fst (containerPaths cfg contName)) =
               osOpen (disk v) (fst (containerPaths cfg contName))"
    and "osOpen (disk (snd (fetchContainersFromManager lb cl cfg v)))
                 (snd (containerPaths cfg contName)) =
               osOpen (disk v) (snd (containerPaths cfg contName))"
    by simp_all
qed


text \<open>
  A manager that reports digests matching neither the rules nor the container it serves:
  both fetches fail with the integrity error and the file system stays as it was.
\<close>

theorem fetch_integrity_failure_witness:
  "fetchRulesFromManager exampleLib
      (fixedClient (''0000'', None) (''rule-a'', None) ([''blacklist''], None)
         (''1111'', None) ([''evil.exe''], None))
      exampleConfig exampleWorld =
     (Some RulesIntegrity, exampleWorld\<lparr>calls := [CallGetRulesSha256, CallGetRules]\<rparr>)
   \<and> fst (fetchContainersFromManager exampleLib
      (fixedClient (''0000'', None) (''rule-a'', None) ([''blacklist''], None)
         (''1111'', None) ([''evil.exe''], None))
      exampleConfig exampleWorld) = Some (ContainerIntegrity ''blacklist'')
   \<and> disk (snd (fetchContainersFromManager exampleLib
      (fixedClient (''0000'', None) (''rule-a'', None) ([''blacklist''], None)
         (''1111'', None) ([''evil.exe''], None))
      exampleConfig exampleWorld)) = disk exampleWorld"
  using fetch_integrity_failure
    [where cfg = exampleConfig and lb = exampleLib
       and cl = "fixedClient (''0000'', None) (''rule-a'', None) ([''blacklist''], None)
                   (''1111'', None) ([''evil.exe''], None)"
       and w = exampleWorld and ?sha256.0 = "''0000''" and ?m1.0 = "()" and rules = "''rule-a''"
       and ?m2.0 = "()"
       and v = exampleWorld and pre = "[]" and contName = "''blacklist''" and post = "[]"
       and ?n0.0 = "()" and vp = "exampleWorld\<lparr>calls := [CallGetContainersList]\<rparr>"
       and ?v1.0 = "exampleWorld\<lparr>calls := [CallGetContainersList,
                                             CallGetContainerSha256 ''blacklist'']\<rparr>"
       and cont = "[''evil.exe'']" and ?n2.0 = "()" and ?csha256.0 = "''1111''" and err = None
       and ?n3.0 = "()"]
  by (simp add: exampleLib_def fixedClient_def exampleConfig_def exampleWorld_def
        needsContainerUpdate_def request_def containerPaths_def Join_def Clean_def pathElements_def
        PathSeparator_def containerFile_def containerExt_def ReadFileString_def osOpen_def
        Let_def)

section \<open>Properties of the staleness checks\<close>

lemma sends_refl: "sends P w w"
  by (simp add: sends_def newCalls_def)

lemma sends_append: "calls w' = calls w @ cs \<Longrightarrow> list_all P cs \<Longrightarrow> sends P w w'"
  by (simp add: sends_def newCalls_def)

lemma sendsD: "sends P w w' \<Longrightarrow> calls w' = calls w @ newCalls w w' \<and> list_all P (newCalls w w')"
  by (metis append_take_drop_id newCalls_def sends_def)

lemma sends_trans: "sends P w w1 \<Longrightarrow> sends P w1 w2 \<Longrightarrow> sends P w w2"
proof -
  assume a: "sends P w w1" and b: "sends P w1 w2"
  from sendsD [OF a] sendsD [OF b]
  have "calls w2 = calls w @ (newCalls w w1 @ newCalls w1 w2)"
    and "list_all P (newCalls w w1 @ newCalls w1 w2)" by simp_all
  then show ?thesis by (rule sends_append)
qed

lemma sends_request: "request c f w = (r, w1) \<Longrightarrow> P c \<Longrightarrow> sends P w w1"
  by (rule sends_append [where cs = "[c]"]) (auto simp: request_def split: prod.splits)

lemma sends_disk_upd: "sends P w w1 \<Longrightarrow> sends P w (w1\<lparr>disk := d\<rparr>)"
  by (simp add: sends_def newCalls_def)

lemma sends_needsContainerUpdate:
  "needsContainerUpdate cl cfg c w = (b, w1) \<Longrightarrow> P (CallGetContainerSha256 c) \<Longrightarrow> sends P w w1"
  by (rule sends_append [where cs = "[CallGetContainerSha256 c]"])
     (auto simp: needsContainerUpdate_def request_def Let_def split: prod.splits)

lemma sends_anyContainerNeedsUpdate:
  "anyContainerNeedsUpdate cl cfg cs w = (b, w1) \<Longrightarrow> \<forall>c. P (CallGetContainerSha256 c) \<Longrightarrow> sends P w w1"
proof (induction cs arbitrary: w)
  case Nil
  then show ?case by (simp add: sends_refl)
next
  case (Cons c cs)
  obtain stale wa where n: "needsContainerUpdate cl cfg c w = (stale, wa)"
    by (cases "needsContainerUpdate cl cfg c w") auto
  have s1: "sends P w wa" using sends_needsContainerUpdate [OF n] Cons.prems(2) by simp
  show ?case
  proof (cases stale)
    case True
    with Cons.prems(1) n have "w1 = wa" by simp
    with s1 show ?thesis by simp
  next
    case False
    with Cons.prems(1) n have "anyContainerNeedsUpdate cl cfg cs wa = (b, w1)" by simp
    from Cons.IH [OF this Cons.prems(2)] s1 show ?thesis by (blast intro: sends_trans)
  qed
qed

lemma sends_needsContainersUpdate:
  assumes "needsContainersUpdate cl cfg h w = (b, w1)"
    and "P CallGetContainersList" and "\<forall>c. P (CallGetContainerSha256 c)"
  shows "sends P w w1"
proof (cases "forwarderLocal h")
  case True
  with assms(1) show ?thesis by (simp add: needsContainersUpdate_def sends_refl)
next
  case False
  obtain names err wa where r: "request CallGetContainersList (GetContainersList cl) w = ((names, err), wa)"
    by (cases "request CallGetContainersList (GetContainersList cl) w") auto
  have s1: "sends P w wa" by (rule sends_request [where P = P, OF r assms(2)])
  show ?thesis
  proof (cases err)
    case (Some e)
    with assms(1) False r have "w1 = wa" by (simp add: needsContainersUpdate_def)
    with s1 show ?thesis by simp
  next
    case None
    with assms(1) False r have "anyContainerNeedsUpdate cl cfg names wa = (b, w1)"
      by (simp add: needsContainersUpdate_def)
    from sends_anyContainerNeedsUpdate [OF this assms(3)] s1 show ?thesis
      by (blast intro: sends_trans)
  qed
qed

lemma sends_fetchContainers:
  "fetchContainers lb cl cfg cs w = (r, w') \<Longrightarrow>
   \<forall>c. P (CallGetContainerSha256 c) \<and> P (CallGetContainer c) \<Longrightarrow> sends P w w'"
proof (induction cs arbitrary: w)
  case Nil
  then show ?case by (simp add: sends_refl)
next
  case (Cons c cs)
  obtain stale w1 where n: "needsContainerUpdate cl cfg c w = (stale, w1)"
    by (cases "needsContainerUpdate cl cfg c w") auto
  have s1: "sends P w w1" using sends_needsContainerUpdate [OF n] Cons.prems(2) by simp
  show ?case
  proof (cases stale)
    case False
    with Cons.prems n have "fetchContainers lb cl cfg cs w1 = (r, w')" by simp
    from Cons.IH [OF this Cons.prems(2)] s1 show ?thesis by (blast intro: sends_trans)
  next
    case True
    obtain cont err w2 where g: "request (CallGetContainer c) (GetContainer cl c) w1 = ((cont, err), w2)"
      by (cases "request (CallGetContainer c) (GetContainer cl c) w1") auto
    have s2: "sends P w w2" using sends_request [OF g] Cons.prems(2) s1 by (blast intro: sends_trans)
    obtain sha e3 w3 where s: "request (CallGetContainerSha256 c) (GetContainerSha256 cl c) w2 = ((sha, e3), w3)"
      by (cases "request (CallGetContainerSha256 c) (GetContainerSha256 cl c) w2") auto
    have s3: "sends P w w3" using sends_request [OF s] Cons.prems(2) s2 by (blast intro: sends_trans)
    obtain contPath shaPath where cp: "containerPaths cfg c = (contPath, shaPath)"
      by (cases "containerPaths cfg c") auto
    obtain e4 fs1 where w4: "WriteFile contPath (gzipWrite lb (containerBytes cont)) (disk w3) = (e4, fs1)"
      by (cases "WriteFile contPath (gzipWrite lb (containerBytes cont)) (disk w3)") auto
    obtain e5 fs2 where w5: "WriteFile shaPath (Sha256StringArray lb cont) fs1 = (e5, fs2)"
      by (cases "WriteFile shaPath (Sha256StringArray lb cont) fs1") auto
    show ?thesis
    proof (cases "err = None \<and> Sha256StringArray lb cont = sha \<and> e4 = None")
      case True
      with Cons.prems(1) n \<open>stale\<close> g s cp w4 w5
      have "fetchContainers lb cl cfg cs (w3\<lparr>disk := fs2\<rparr>) = (r, w')"
        by (simp add: Let_def)
      from Cons.IH [OF this Cons.prems(2)] sends_disk_upd [OF s3, of fs2]
      show ?thesis by (blast intro: sends_trans)
    next
      case False
      have "w' = w2 \<or> w' = w3"
      proof (cases err)
        case (Some e)
        with Cons.prems(1) n \<open>stale\<close> g show ?thesis by (simp add: Let_def)
      next
        case None
        show ?thesis
        proof (cases "Sha256StringArray lb cont = sha")
          case False
          with Cons.prems(1) n \<open>stale\<close> g s None show ?thesis by (simp add: Let_def)
        next
          case True
          with \<open>\<not> (err = None \<and> Sha256StringArray lb cont = sha \<and> e4 = None)\<close> None
          obtain e where "e4 = Some e" by auto
          with Cons.prems(1) n \<open>stale\<close> g s None True cp w4 show ?thesis
            by (simp add: Let_def)
        qed
      qed
      with s2 s3 show ?thesis by auto
    qed
  qed
qed

lemma sends_fetchContainersFromManager:
  assumes "fetchContainersFromManager lb cl cfg w = (r, w')"
    and "P CallGetContainersList" and "\<forall>c. P (CallGetContainerSha256 c) \<and> P (CallGetContainer c)"
  shows "sends P w w'"
proof (cases "FwdLocal cfg")
  case True
  with assms(1) show ?thesis by (simp add: fetchContainersFromManager_def sends_refl)
next
  case False
  obtain names err wa where q: "request CallGetContainersList (GetContainersList cl) w = ((names, err), wa)"
    by (cases "request CallGetContainersList (GetContainersList cl) w") auto
  have s1: "sends P w wa" by (rule sends_request [where P = P, OF q assms(2)])
  show ?thesis
  proof (cases err)
    case (Some e)
    with assms(1) False q have "w' = wa" by (simp add: fetchContainersFromManager_def)
    with s1 show ?thesis by simp
  next
    case None
    with assms(1) False q have "fetchContainers lb cl cfg names wa = (r, w')"
      by (simp add: fetchContainersFromManager_def)
    from sends_fetchContainers [OF this assms(3)] s1 show ?thesis
      by (blast intro: sends_trans)
  qed
qed

lemma sends_needsRulesUpdate:
  assumes "needsRulesUpdate cl cfg h w = (b, w1)" and "P CallGetRulesSha256"
  shows "sends P w w1"
proof (cases "forwarderLocal h")
  case True
  with assms(1) show ?thesis by (simp add: needsRulesUpdate_def sends_refl split: prod.splits)
next
  case False
  obtain sha err wa where q: "request CallGetRulesSha256 (GetRulesSha256 cl) w = ((sha, err), wa)"
    by (cases "request CallGetRulesSha256 (GetRulesSha256 cl) w") auto
  have s1: "sends P w wa" by (rule sends_request [where P = P, OF q assms(2)])
  from assms(1) False q have "w1 = wa"
    by (auto simp: needsRulesUpdate_def Let_def split: prod.splits option.splits)
  with s1 show ?thesis by simp
qed

lemma sends_fetchRulesFromManager:
  assumes "fetchRulesFromManager lb cl cfg w = (r, w')"
    and "P CallGetRulesSha256" and "P CallGetRules"
  shows "sends P w w'"
proof (cases "FwdLocal cfg")
  case True
  with assms(1) show ?thesis
    by (simp add: fetchRulesFromManager_def sends_refl split: prod.splits)
next
  case False
  obtain sha err wa where q: "request CallGetRulesSha256 (GetRulesSha256 cl) w = ((sha, err), wa)"
    by (cases "request CallGetRulesSha256 (GetRulesSha256 cl) w") auto
  have s1: "sends P w wa" by (rule sends_request [where P = P, OF q assms(2)])
  obtain rules err2 wb where q2: "request CallGetRules (GetRules cl) wa = ((rules, err2), wb)"
    by (cases "request CallGetRules (GetRules cl) wa") auto
  have s2: "sends P w wb"
    using sends_request [where P = P, OF q2 assms(3)] s1 by (blast intro: sends_trans)
  from assms(1) False q q2 have "w' = wa \<or> w' = wb \<or> (\<exists>d. w' = wb\<lparr>disk := d\<rparr>)"
    by (auto simp: fetchRulesFromManager_def Let_def split: prod.splits option.splits if_splits)
  with s1 s2 show ?thesis by (auto intro: sends_disk_upd)
qed

lemma fetchUpdates_no_rules_fetch:
  assumes "fst (needsRulesUpdate cl cfg h w) = False"
  shows "CallGetRules \<notin> set (newCalls w (snd (fetchUpdates lb cl cfg h w)))"
proof -
  let ?P = "\<lambda>c. c \<noteq> CallGetRules"
  obtain w1 where n1: "needsRulesUpdate cl cfg h w = (False, w1)"
    using assms by (cases "needsRulesUpdate cl cfg h w") auto
  obtain b2 w2 where n2: "needsContainersUpdate cl cfg h w1 = (b2, w2)"
    by (cases "needsContainersUpdate cl cfg h w1") auto
  obtain r4 w4 where f4: "fetchContainersFromManager lb cl cfg w2 = (r4, w4)"
    by (cases "fetchContainersFromManager lb cl cfg w2") auto
  have s1: "sends ?P w w1" by (rule sends_needsRulesUpdate [OF n1]) simp
  have s2: "sends ?P w1 w2" by (rule sends_needsContainersUpdate [OF n2]) simp_all
  have s4: "sends ?P w2 w4" by (rule sends_fetchContainersFromManager [OF f4]) simp_all
  have "snd (fetchUpdates lb cl cfg h w) = (if b2 then w4 else w2)"
    using n1 n2 f4 by (simp add: fetchUpdates_def split: option.splits)
  moreover have "sends ?P w w2" using s1 s2 by (rule sends_trans)
  moreover have "sends ?P w w4" using s1 s2 s4 by (blast intro: sends_trans)
  ultimately have "sends ?P w (snd (fetchUpdates lb cl cfg h w))" by simp
  then show ?thesis by (auto simp: sends_def list_all_iff)
qed

lemma needsRulesUpdate_same_digest:
  assumes "GetRulesSha256 cl (mgr w) = ((sha256, err), m1)"
    and "fst (ReadFileString (disk w) (snd (RulesPaths cfg))) = sha256"
  shows "fst (needsRulesUpdate cl cfg h w) = False"
  using assms
  by (auto simp: needsRulesUpdate_def request_def Let_def split: prod.splits option.splits)

lemma needsContainerUpdate_same_digest:
  assumes "GetContainerSha256 cl c (mgr w) = ((sha256, err), m1)"
    and "fst (ReadFileString (disk w) (snd (containerPaths cfg c))) = sha256"
  shows "needsContainerUpdate cl cfg c w =
           (False, w\<lparr>mgr := m1, calls := calls w @ [CallGetContainerSha256 c]\<rparr>)"
  using assms
  by (auto simp: needsContainerUpdate_def request_def Let_def split: prod.splits)

lemma needsRulesUpdate_fetch_failed:
  "GetRulesSha256 cl (mgr w) = ((sha256, Some e), m1) \<Longrightarrow> fst (needsRulesUpdate cl cfg h w) = False"
  by (auto simp: needsRulesUpdate_def request_def Let_def split: prod.splits)

lemma needsContainersUpdate_list_failed:
  "GetContainersList cl (mgr w) = ((names, Some e), m1) \<Longrightarrow>
   fst (needsContainersUpdate cl cfg h w) = False"
  by (auto simp: needsContainersUpdate_def request_def Let_def split: prod.splits)

lemma needs_update_standalone:
  "forwarderLocal h \<Longrightarrow> needsRulesUpdate cl cfg h w = (False, w) \<and> needsContainersUpdate cl cfg h w = (False, w)"
  by (simp add: needsRulesUpdate_def needsContainersUpdate_def split: prod.splits)


text \<open>
  Claim C9, as the code has it. When the rules digest read from the local digest file
  equals the digest the manager reports, \<^verbatim>\<open>needsRulesUpdate\<close> is false and the first part
  of \<^verbatim>\<open>updateEngine\<close> sends no request for the rules. When a container's local digest
  equals the digest the manager reports for it, \<^verbatim>\<open>needsContainerUpdate\<close> is false and the
  fetch loop passes over the container with that one digest request only. Both staleness
  checks are false, without any request, when the forwarder is marked local;
  \<^verbatim>\<open>needsRulesUpdate\<close> is false when the request for the rules digest fails, and
  \<^verbatim>\<open>needsContainersUpdate\<close> is false when the request for the list of containers fails.
\<close>

theorem staleness_checks:
  "(GetRulesSha256 cl (mgr w) = ((sha256, err), m1) \<and>
    fst (ReadFileString (disk w) (snd (RulesPaths cfg))) = sha256
    \<longrightarrow> \<not> fst (needsRulesUpdate cl cfg h w) \<and>
        CallGetRules \<notin> set (newCalls w (snd (fetchUpdates lb cl cfg h w))))
   \<and>
   (GetContainerSha256 cl c (mgr v) = ((csha256, cerr), n1) \<and>
    fst (ReadFileString (disk v) (snd (containerPaths cfg c))) = csha256
    \<longrightarrow> needsContainerUpdate cl cfg c v =
          (False, v\<lparr>mgr := n1, calls := calls v @ [CallGetContainerSha256 c]\<rparr>) \<and>
        fetchContainers lb cl cfg (c # rest) v =
          fetchContainers lb cl cfg rest
            (v\<lparr>mgr := n1, calls := calls v @ [CallGetContainerSha256 c]\<rparr>))
   \<and>
   (forwarderLocal h' \<longrightarrow>
      needsRulesUpdate cl cfg h' w = (False, w) \<and> needsContainersUpdate cl cfg h' w = (False, w))
   \<and>
   (GetRulesSha256 cl' (mgr u) = ((usha256, Some e), k1)
    \<longrightarrow> \<not> fst (needsRulesUpdate cl' cfg h u))
   \<and>
   (GetContainersList cl' (mgr u) = ((names, Some e'), k2)
    \<longrightarrow> \<not> fst (needsContainersUpdate cl' cfg h u))"
proof (intro conjI impI; (elim conjE)?)
  assume a: "GetRulesSha256 cl (mgr w) = ((sha256, err), m1)"
    and b: "fst (ReadFileString (disk w) (snd (RulesPaths cfg))) = sha256"
  from needsRulesUpdate_same_digest [OF a b]
  show n: "\<not> fst (needsRulesUpdate cl cfg h w)" by simp
  then have "fst (needsRulesUpdate cl cfg h w) = False" by simp
  then show "CallGetRules \<notin> set (newCalls w (snd (fetchUpdates lb cl cfg h w)))"
    by (rule fetchUpdates_no_rules_fetch)
next
  assume a: "GetContainerSha256 cl c (mgr v) = ((csha256, cerr), n1)"
    and b: "fst (ReadFileString (disk v) (snd (containerPaths cfg c))) = csha256"
  show n: "needsContainerUpdate cl cfg c v =
          (False, v\<lparr>mgr := n1, calls := calls v @ [CallGetContainerSha256 c]\<rparr>)"
    by (rule needsContainerUpdate_same_digest [OF a b])
  show "fetchContainers lb cl cfg (c # rest) v =
          fetchContainers lb cl cfg rest
            (v\<lparr>mgr := n1, calls := calls v @ [CallGetContainerSha256 c]\<rparr>)"
    by (simp add: n)
next
  assume "forwarderLocal h'"
  note s = needs_update_standalone [OF this, of cl cfg w]
  from s show "needsRulesUpdate cl cfg h' w = (False, w)" by (rule conjunct1)
  from s show "needsContainersUpdate cl cfg h' w = (False, w)" by (rule conjunct2)
next
  assume "GetRulesSha256 cl' (mgr u) = ((usha256, Some e), k1)"
  from needsRulesUpdate_fetch_failed [OF this]
  show "\<not> fst (needsRulesUpdate cl' cfg h u)" by simp
next
  assume "GetContainersList cl' (mgr u) = ((names, Some e'), k2)"
  from needsContainersUpdate_list_failed [OF this]
  show "\<not> fst (needsContainersUpdate cl' cfg h u)" by simp
qed

text \<open>
  A manager whose digests are those stored locally: neither check asks for an update and
  the first part of \<^verbatim>\<open>updateEngine\<close> sends three digest and list requests and no request
  for content. A manager that cannot be reached: both checks are false.
\<close>

theorem staleness_checks_witness:
  "\<not> fst (needsRulesUpdate
            (fixedClient (''sha256:old rules'', None) (''old rules'', None)
               ([''blacklist''], None) (''sha256:evil.exe'', None) ([''evil.exe''], None))
            exampleConfig exampleHids exampleWorld)
   \<and> calls (snd (fetchUpdates exampleLib
            (fixedClient (''sha256:old rules'', None) (''old rules'', None)
               ([''blacklist''], None) (''sha256:evil.exe'', None) ([''evil.exe''], None))
            exampleConfig exampleHids exampleWorld)) =
       [CallGetRulesSha256, CallGetContainersList, CallGetContainerSha256 ''blacklist'']
   \<and> fetchContainers exampleLib
            (fixedClient (''sha256:old rules'', None) (''old rules'', None)
               ([''blacklist''], None) (''sha256:evil.exe'', None) ([''evil.exe''], None))
            exampleConfig [''blacklist''] exampleWorld =
       (None, exampleWorld\<lparr>calls := [CallGetContainerSha256 ''blacklist'']\<rparr>)
   \<and> needsContainersUpdate
            (fixedClient (''sha256:old rules'', None) (''old rules'', None)
               ([''blacklist''], None) (''sha256:evil.exe'', None) ([''evil.exe''], None))
            exampleConfig (exampleHids\<lparr>forwarderLocal := True\<rparr>) exampleWorld =
       (False, exampleWorld)
   \<and> \<not> fst (needsRulesUpdate
            (fixedClient ([], Some (Failure ''unreachable'')) ([], Some (Failure ''unreachable''))
               ([], Some (Failure ''unreachable'')) ([], Some (Failure ''unreachable''))
               ([], Some (Failure ''unreachable'')))
            exampleConfig exampleHids exampleWorld)
   \<and> \<not> fst (needsContainersUpdate
            (fixedClient ([], Some (Failure ''unreachable'')) ([], Some (Failure ''unreachable''))
               ([], Some (Failure ''unreachable'')) ([], Some (Failure ''unreachable''))
               ([], Some (Failure ''unreachable'')))
            exampleConfig exampleHids exampleWorld)"
  using staleness_checks
    [where cl = "fixedClient (''sha256:old rules'', None) (''old rules'', None)
               ([''blacklist''], None) (''sha256:evil.exe'', None) ([''evil.exe''], None)"
       and cl' = "fixedClient ([], Some (Failure ''unreachable'')) ([], Some (Failure ''unreachable''))
               ([], Some (Failure ''unreachable'')) ([], Some (Failure ''unreachable''))
               ([], Some (Failure ''unreachable''))"
       and cfg = exampleConfig and h = exampleHids and lb = exampleLib
       and h' = "exampleHids\<lparr>forwarderLocal := True\<rparr>"
       and w = exampleWorld and v = exampleWorld and u = exampleWorld
       and ?sha256.0 = "''sha256:old rules''" and err = None and ?m1.0 = "()"
       and c = "''blacklist''" and ?csha256.0 = "''sha256:evil.exe''" and cerr = None
       and ?n1.0 = "()" and rest = "[]"
       and ?usha256.0 = "[]" and e = "Failure ''unreachable''" and ?k1.0 = "()"
       and names = "[]" and e' = "Failure ''unreachable''" and ?k2.0 = "()"]
  by (simp add: exampleLib_def fixedClient_def exampleConfig_def exampleWorld_def
        exampleHids_def fetchUpdates_def needsRulesUpdate_def needsContainersUpdate_def
        needsContainerUpdate_def request_def RulesPaths_def containerPaths_def Join_def
        Clean_def pathElements_def PathSeparator_def containerFile_def containerExt_def ReadFileString_def osOpen_def
        newCalls_def Let_def)

text \<open>
  Claim C9 as stated fails for containers: when the request for a container's digest
  fails, its error is discarded and the string that came with it is compared with the
  local digest. With a digest file on disk and a manager that lists the container but
  fails the digest request, \<^verbatim>\<open>needsContainersUpdate\<close> is true.
\<close>

theorem staleness_digest_failure_counterexample:
  "snd (fst (GetContainerSha256
        (fixedClient (''sha256:old rules'', None) (''old rules'', None)
           ([''blacklist''], None) ([], Some (Failure ''unreachable'')) ([''evil.exe''], None))
        ''blacklist'' ())) = Some (Failure ''unreachable'')
   \<and> fst (needsContainersUpdate
        (fixedClient (''sha256:old rules'', None) (''old rules'', None)
           ([''blacklist''], None) ([], Some (Failure ''unreachable'')) ([''evil.exe''], None))
        exampleConfig exampleHids exampleWorld)"
  by (simp add: fixedClient_def exampleConfig_def exampleWorld_def exampleHids_def
        needsContainersUpdate_def needsContainerUpdate_def request_def containerPaths_def
        Join_def Clean_def pathElements_def PathSeparator_def containerFile_def containerExt_def
        ReadFileString_def osOpen_def Let_def)

section \<open>Properties of the engine rebuild\<close>

lemma loadContainerFiles_eq:
  "loadContainerFiles lb ops fs d names (lastErr, e) =
     (lastError lastErr (List.map_filter (containerLoadError lb fs d) names),
      loadAll ops e (List.map_filter (containerLoaded lb fs d) names))"
proof (induction names arbitrary: lastErr e)
  case Nil
  then show ?case by (simp add: lastError_def loadAll_def)
next
  case (Cons name names)
  show ?case
  proof (cases "containerLoadError lb fs d name")
    case None
    show ?thesis
    proof (cases "HasSuffix name containerExt")
      case False
      then have "containerLoaded lb fs d name = None"
        by (simp add: containerLoaded_def)
      with None False show ?thesis
        by (simp add: Cons.IH Let_def)
    next
      case True
      with None obtain bytes r where o: "osOpen fs (Join d name) = Inr bytes"
        and g: "gzipNewReader lb bytes = Inr r"
        by (auto simp: containerLoadError_def split: sum.splits)
      then have "containerLoaded lb fs d name = Some (hd (SplitN2 name CHR ''.''), r)"
        using True by (simp add: containerLoaded_def)
      with None True o g show ?thesis
        by (simp add: Cons.IH Let_def loadAll_def)
    qed
  next
    case (Some err)
    then have suf: "HasSuffix name containerExt"
      by (auto simp: containerLoadError_def split: if_splits)
    from Some have nl: "containerLoaded lb fs d name = None"
      by (auto simp: containerLoadError_def containerLoaded_def split: if_splits sum.splits)
    have step: "loadContainerFiles lb ops fs d (name # names) (lastErr, e) =
                loadContainerFiles lb ops fs d names (Some err, e)"
      using Some suf
      by (auto simp: containerLoadError_def Let_def split: sum.splits)
    have "lastError (Some err) (List.map_filter (containerLoadError lb fs d) names) =
          lastError lastErr (err # List.map_filter (containerLoadError lb fs d) names)"
      by (simp add: lastError_def)
    with step Some nl show ?thesis
      by (simp add: Cons.IH)
  qed
qed

lemma lastError_append:
  "lastError (lastError lastErr errs) errs' = lastError lastErr (errs @ errs')"
  by (simp add: lastError_def)

lemma loadAll_append:
  "loadAll ops (loadAll ops e conts) conts' = loadAll ops e (conts @ conts')"
  by (simp add: loadAll_def)

lemma map_filter_append:
  "List.map_filter f (xs @ ys) = List.map_filter f xs @ List.map_filter f ys"
  by (simp add: List.map_filter_def)

lemma map_filter_dirpath:
  "List.map_filter (\<lambda>(dirpath, name). f dirpath name) (map (\<lambda>name. (d, name)) names) =
     List.map_filter (f d) names"
  by (simp add: List.map_filter_def filter_map comp_def)

lemma containerErrors_Cons:
  "containerErrors lb fs ((d, names) # walked) =
     List.map_filter (containerLoadError lb fs d) names @ containerErrors lb fs walked"
  by (simp add: containerErrors_def walkedFiles_def map_filter_append map_filter_dirpath)

lemma containersLoaded_Cons:
  "containersLoaded lb fs ((d, names) # walked) =
     List.map_filter (containerLoaded lb fs d) names @ containersLoaded lb fs walked"
  by (simp add: containersLoaded_def walkedFiles_def map_filter_append map_filter_dirpath)

lemma loadWalkItems_eq:
  "loadWalkItems lb ops fs walked (lastErr, e) =
     (lastError lastErr (containerErrors lb fs walked),
      loadAll ops e (containersLoaded lb fs walked))"
proof (induction walked arbitrary: lastErr e)
  case Nil
  then show ?case
    by (simp add: containerErrors_def containersLoaded_def walkedFiles_def lastError_def
          loadAll_def List.map_filter_simps)
next
  case (Cons wi walked)
  obtain d names where wi: "wi = (d, names)" by (cases wi) auto
  show ?case
    unfolding wi
    by (simp add: loadContainerFiles_eq Cons.IH lastError_append loadAll_append
          containerErrors_Cons containersLoaded_Cons)
qed

lemma loadContainers_eq:
  "loadContainers lb ops cfg fs h =
     (lastError None (containerErrors lb fs (Walk lb fs (ContainersDB cfg))),
      h\<lparr>Engine := loadAll ops (Engine h)
                     (containersLoaded lb fs (Walk lb fs (ContainersDB cfg)))\<rparr>)"
  by (simp add: loadContainers_def loadWalkItems_eq)

lemma updateEngine_container_failure:
  assumes fu: "fetchUpdates lb cl cfg h w = ((reloadRules, reloadContainers), w')"
    and go: "reloadRules \<or> reloadContainers \<or> force"
    and errs: "containerErrors lb (disk w') (Walk lb (disk w') (ContainersDB cfg)) \<noteq> []"
  shows "updateEngine lb cl ops cfg force h w =
           (Some (LoadingContainers
                    (last (containerErrors lb (disk w') (Walk lb (disk w') (ContainersDB cfg))))),
            h\<lparr>Engine := loadAll ops (newActionnableEngine ops)
                           (containersLoaded lb (disk w') (Walk lb (disk w') (ContainersDB cfg)))\<rparr>,
            w')"
  using go errs
  by (auto simp: updateEngine_def fu rebuildEngine_def loadContainers_eq lastError_def)

lemma updateEngine_rules_failure:
  assumes fu: "fetchUpdates lb cl cfg h w = ((reloadRules, reloadContainers), w')"
    and go: "reloadRules \<or> force"
    and conts: "loadContainers lb ops cfg (disk w') (h\<lparr>Engine := newActionnableEngine ops\<rparr>) = (None, h2)"
    and dir: "LoadDirectory ops (RulesDB cfg) (disk w')
                (if CanariesEnable cfg then loadCanaryRules ops (Engine h2) else Engine h2) = (Some err, e)"
  shows "updateEngine lb cl ops cfg force h w = (Some (LoadRules err), h\<lparr>Engine := e\<rparr>, w')"
proof -
  have h2: "h2 = h\<lparr>Engine := Engine h2\<rparr>"
    using conts by (auto simp: loadContainers_eq)
  have "updateEngine lb cl ops cfg force h w = (Some (LoadRules err), h2\<lparr>Engine := e\<rparr>, w')"
    using go conts dir
    by (auto simp: updateEngine_def fu rebuildEngine_def Let_def)
  also have "h2\<lparr>Engine := e\<rparr> = h\<lparr>Engine := e\<rparr>"
    by (subst h2) simp
  finally show ?thesis .
qed


text \<open>
  Claim C2, as the code has it. \<^verbatim>\<open>updateEngine\<close> assigns the fresh engine to the agent
  before anything is loaded into it. When the rule directory is loaded (rules were
  fetched, or the rebuild is forced), every container file that the walk of the
  container directory yields loads, and the directory load fails, \<^verbatim>\<open>updateEngine\<close>
  returns the error wrapped as a rule load failure, and the agent's engine is the fresh
  engine with the containers and the canary rules, as the failed load left it. Nothing of
  the previous engine enters the result. This holds for every walk.
\<close>

theorem rebuild_rule_load_failure:
  assumes "fetchUpdates lb cl cfg h w = ((reloadRules, reloadContainers), w')"
    and "reloadRules \<or> force"
    and "containerErrors lb (disk w') (Walk lb (disk w') (ContainersDB cfg)) = []"
    and "e1 = loadAll ops (newActionnableEngine ops)
                (containersLoaded lb (disk w') (Walk lb (disk w') (ContainersDB cfg)))"
    and "LoadDirectory ops (RulesDB cfg) (disk w')
           (if CanariesEnable cfg then loadCanaryRules ops e1 else e1) = (Some err, e2)"
  shows "updateEngine lb cl ops cfg force h w = (Some (LoadRules err), h\<lparr>Engine := e2\<rparr>, w')"
proof (rule updateEngine_rules_failure [OF assms(1,2)])
  show "loadContainers lb ops cfg (disk w') (h\<lparr>Engine := newActionnableEngine ops\<rparr>) =
          (None, h\<lparr>Engine := e1\<rparr>)"
    using assms(3,4) by (simp add: loadContainers_eq lastError_def)
  show "LoadDirectory ops (RulesDB cfg) (disk w')
          (if CanariesEnable cfg then loadCanaryRules ops (Engine (h\<lparr>Engine := e1\<rparr>))
           else Engine (h\<lparr>Engine := e1\<rparr>)) = (Some err, e2)"
    using assms(5) by (cases "CanariesEnable cfg") simp_all
qed

text \<open>
  A periodic update: the manager serves a new rule text with its digest, the text is
  verified and written, and the fresh engine fails to load it. The update returns the
  error, and the agent, whose engine held three rules, is left with the fresh engine,
  which holds one container and no rule.
\<close>

theorem rebuild_rule_load_failure_witness:
  "updateEngine exampleLib brokenRulesClient (toyOps (\<lambda>ev. ([], 0, False))) exampleConfig False
      exampleHids exampleWorld =
     (Some (LoadRules (Failure ''rule does not compile'')),
      exampleHids\<lparr>Engine := \<lparr>showActions = True,
                               loadedContainers = [(''blacklist'', ''evil.exe'' @ [CHR 0x0A])],
                               loadedRules = []\<rparr>\<rparr>,
      \<lparr>disk = \<lparr>files = [(''rules/database.gen'', ''!broken rule''),
                        (''rules/database.gen.sha256'', ''sha256:!broken rule''),
                        (''containers/blacklist.cont.gz'', ''gz:evil.exe'' @ [CHR 0x0A]),
                        (''containers/blacklist.cont.gz.sha256'', ''sha256:evil.exe'')],
               locked = []\<rparr>,
       mgr = (),
       calls = [CallGetRulesSha256, CallGetContainersList, CallGetRulesSha256, CallGetRules]\<rparr>)"
proof -
  let ?ops = "toyOps (\<lambda>ev. ([], 0, False))"
  let ?d = "\<lparr>files = [(''rules/database.gen'', ''!broken rule''),
                      (''rules/database.gen.sha256'', ''sha256:!broken rule''),
                      (''containers/blacklist.cont.gz'', ''gz:evil.exe'' @ [CHR 0x0A]),
                      (''containers/blacklist.cont.gz.sha256'', ''sha256:evil.exe'')],
             locked = []\<rparr>"
  let ?w = "\<lparr>disk = ?d, mgr = (),
             calls = [CallGetRulesSha256, CallGetContainersList, CallGetRulesSha256, CallGetRules]\<rparr>"
  let ?e1 = "\<lparr>showActions = True,
              loadedContainers = [(''blacklist'', ''evil.exe'' @ [CHR 0x0A])],
              loadedRules = []\<rparr>"
  have fu: "fetchUpdates exampleLib brokenRulesClient exampleConfig exampleHids exampleWorld =
              ((True, False), ?w)"
    by (simp add: fetchUpdates_def needsRulesUpdate_def needsContainersUpdate_def
          fetchRulesFromManager_def request_def RulesPaths_def Join_def Clean_def
          pathElements_def PathSeparator_def
          ReadFileString_def osOpen_def WriteFile_def brokenRulesClient_def fixedClient_def
          exampleLib_def exampleConfig_def exampleHids_def exampleWorld_def Let_def)
  have go: "True \<or> False" by simp
  have walked: "Walk exampleLib (disk ?w) (ContainersDB exampleConfig) =
                  [(''containers'', [''blacklist.cont.gz'', ''blacklist.cont.gz.sha256''])]"
    by (simp add: exampleLib_def exampleConfig_def treeWalk_def dirOf_def baseOf_def
          pathElements_def PathSeparator_def Let_def)
  have noerr: "containerErrors exampleLib (disk ?w)
                 (Walk exampleLib (disk ?w) (ContainersDB exampleConfig)) = []"
    unfolding walked
    by (simp add: containerErrors_def walkedFiles_def List.map_filter_simps
          containerLoadError_def HasSuffix_def containerExt_def osOpen_def
          Join_def Clean_def pathElements_def PathSeparator_def exampleLib_def Let_def)
  have e1: "?e1 = loadAll ?ops (newActionnableEngine ?ops)
                (containersLoaded exampleLib (disk ?w)
                   (Walk exampleLib (disk ?w) (ContainersDB exampleConfig)))"
    unfolding walked
    by (simp add: containersLoaded_def walkedFiles_def List.map_filter_simps
          containerLoaded_def HasSuffix_def containerExt_def osOpen_def
          Join_def Clean_def pathElements_def PathSeparator_def exampleLib_def
          loadAll_def newActionnableEngine_def toyOps_def SplitN2_def Let_def)
  have ld: "LoadDirectory ?ops (RulesDB exampleConfig) (disk ?w)
           (if CanariesEnable exampleConfig then loadCanaryRules ?ops ?e1 else ?e1) =
           (Some (Failure ''rule does not compile''), ?e1)"
    by (simp add: toyOps_def exampleConfig_def osOpen_def Join_def Clean_def
          pathElements_def PathSeparator_def Let_def)
  from rebuild_rule_load_failure [OF fu go noerr e1 ld]
  show ?thesis .
qed

text \<open>
  Claim C2 as stated fails: in that update the previous engine counted three rules, and
  after the failed rebuild the agent's engine is another one and counts none.
\<close>

theorem rebuild_keeps_engine_counterexample:
  "fst (updateEngine exampleLib brokenRulesClient (toyOps (\<lambda>ev. ([], 0, False))) exampleConfig
          False exampleHids exampleWorld) =
     Some (LoadRules (Failure ''rule does not compile''))
   \<and> Count (toyOps (\<lambda>ev. ([], 0, False))) (Engine exampleHids) = 3
   \<and> Count (toyOps (\<lambda>ev. ([], 0, False)))
       (Engine (fst (snd (updateEngine exampleLib brokenRulesClient
          (toyOps (\<lambda>ev. ([], 0, False))) exampleConfig False exampleHids exampleWorld)))) = 0
   \<and> Engine (fst (snd (updateEngine exampleLib brokenRulesClient
          (toyOps (\<lambda>ev. ([], 0, False))) exampleConfig False exampleHids exampleWorld)))
       \<noteq> Engine exampleHids"
  by (simp add: updateEngine_def fetchUpdates_def needsRulesUpdate_def needsContainersUpdate_def
        fetchRulesFromManager_def request_def RulesPaths_def ReadFileString_def
        WriteFile_def brokenRulesClient_def fixedClient_def
        rebuildEngine_def loadContainers_def treeWalk_def dirOf_def baseOf_def HasSuffix_def
        SplitN2_def containerExt_def osOpen_def Join_def Clean_def pathElements_def
        PathSeparator_def newActionnableEngine_def toyOps_def exampleLib_def
        exampleConfig_def exampleHids_def exampleWorld_def Let_def split: prod.splits)

text \<open>
  Claim C3, as the code has it. \<^verbatim>\<open>loadContainers\<close> loads every file with the container
  extension that opens and decompresses, in the order of the directory walk, passes over
  the others, and returns the last of their errors. When there is such an error,
  \<^verbatim>\<open>updateEngine\<close> returns it wrapped as a container load failure and stops: the agent's
  engine is the fresh engine with the containers that loaded, and neither the canary
  rules nor the rule directory are loaded into it. The files are those of every
  directory that the walk of the container directory yields, whatever the walk.
\<close>

theorem container_load_failures:
  assumes "fetchUpdates lb cl cfg h w = ((reloadRules, reloadContainers), w')"
    and "reloadRules \<or> reloadContainers \<or> force"
    and "errs = containerErrors lb (disk w') (Walk lb (disk w') (ContainersDB cfg))"
    and "good = containersLoaded lb (disk w') (Walk lb (disk w') (ContainersDB cfg))"
    and "errs \<noteq> []"
  shows "loadContainers lb ops cfg (disk w') (h\<lparr>Engine := newActionnableEngine ops\<rparr>) =
           (Some (last errs), h\<lparr>Engine := loadAll ops (newActionnableEngine ops) good\<rparr>)
       \<and> updateEngine lb cl ops cfg force h w =
           (Some (LoadingContainers (last errs)),
            h\<lparr>Engine := loadAll ops (newActionnableEngine ops) good\<rparr>, w')"
proof
  show "loadContainers lb ops cfg (disk w') (h\<lparr>Engine := newActionnableEngine ops\<rparr>) =
           (Some (last errs), h\<lparr>Engine := loadAll ops (newActionnableEngine ops) good\<rparr>)"
    using assms(3,4,5) by (simp add: loadContainers_eq lastError_def)
  show "updateEngine lb cl ops cfg force h w =
           (Some (LoadingContainers (last errs)),
            h\<lparr>Engine := loadAll ops (newActionnableEngine ops) good\<rparr>, w')"
    using updateEngine_container_failure [OF assms(1,2), of ops] assms(3,4,5) by simp
qed

text \<open>
  A standalone agent is rebuilt by force with one good container file, one file in a
  directory below that is no gzip stream, and a rule file: the good container is loaded,
  the rebuild returns the decompression error, and no rule is loaded.
\<close>

theorem container_load_failures_witness:
  "updateEngine exampleLib
      (fixedClient ([], None) ([], None) ([], None) ([], None) ([], None))
      (toyOps (\<lambda>ev. ([], 0, False))) exampleConfig True
      startingHids brokenContainerWorld =
     (Some (LoadingContainers (Failure ''gzip: invalid header'')),
      startingHids\<lparr>Engine := \<lparr>showActions = True,
                                loadedContainers = [(''blacklist'', ''evil.exe'' @ [CHR 0x0A])],
                                loadedRules = []\<rparr>\<rparr>,
      brokenContainerWorld)"
proof -
  let ?cl = "fixedClient ([], None) ([], None) ([], None) ([], None) ([], None)"
  let ?ops = "toyOps (\<lambda>ev. ([], 0, False))"
  let ?h = "startingHids"
  have fu: "fetchUpdates exampleLib ?cl exampleConfig ?h brokenContainerWorld =
              ((False, False), brokenContainerWorld)"
    by (simp add: fetchUpdates_def needsRulesUpdate_def needsContainersUpdate_def
          startingHids_def split: prod.splits)
  have go: "False \<or> False \<or> True" by simp
  have walked: "Walk exampleLib (disk brokenContainerWorld) (ContainersDB exampleConfig) =
                  [(''containers'', [''blacklist.cont.gz'']),
                   (''containers/old'', [''broken.cont.gz''])]"
    by (simp add: exampleLib_def exampleConfig_def brokenContainerWorld_def treeWalk_def
          dirOf_def baseOf_def pathElements_def PathSeparator_def Let_def)
  have errs: "[Failure ''gzip: invalid header''] =
      containerErrors exampleLib (disk brokenContainerWorld)
        (Walk exampleLib (disk brokenContainerWorld) (ContainersDB exampleConfig))"
    unfolding walked
    by (simp add: containerErrors_def walkedFiles_def List.map_filter_simps
          containerLoadError_def HasSuffix_def containerExt_def osOpen_def
          Join_def Clean_def pathElements_def PathSeparator_def
          brokenContainerWorld_def exampleLib_def Let_def)
  have good: "[(''blacklist'', ''evil.exe'' @ [CHR 0x0A])] =
      containersLoaded exampleLib (disk brokenContainerWorld)
        (Walk exampleLib (disk brokenContainerWorld) (ContainersDB exampleConfig))"
    unfolding walked
    by (simp add: containersLoaded_def walkedFiles_def List.map_filter_simps
          containerLoaded_def HasSuffix_def containerExt_def osOpen_def
          Join_def Clean_def pathElements_def PathSeparator_def
          brokenContainerWorld_def exampleLib_def SplitN2_def Let_def)
  have ne: "[Failure ''gzip: invalid header''] \<noteq> []" by simp
  from container_load_failures [OF fu go errs good ne, of ?ops]
  show ?thesis
    by (simp add: loadAll_def newActionnableEngine_def toyOps_def)
qed

text \<open>
  Claim C3 as stated fails: in that run the rule directory can be loaded (the engine's
  directory load succeeds on it) and yet the rebuild stops at the container error with
  an engine that holds no rule.
\<close>

theorem container_failure_blocks_rules_counterexample:
  "fst (updateEngine exampleLib
      (fixedClient ([], None) ([], None) ([], None) ([], None) ([], None))
      (toyOps (\<lambda>ev. ([], 0, False))) exampleConfig True
      startingHids brokenContainerWorld) =
     Some (LoadingContainers (Failure ''gzip: invalid header''))
   \<and> loadedRules (Engine (fst (snd (updateEngine exampleLib
        (fixedClient ([], None) ([], None) ([], None) ([], None) ([], None))
        (toyOps (\<lambda>ev. ([], 0, False))) exampleConfig True
        startingHids brokenContainerWorld)))) = []
   \<and> LoadDirectory (toyOps (\<lambda>ev. ([], 0, False))) (RulesDB exampleConfig)
        (disk brokenContainerWorld) (newActionnableEngine (toyOps (\<lambda>ev. ([], 0, False)))) =
       (None, \<lparr>showActions = True, loadedContainers = [], loadedRules = [''rule-a'']\<rparr>)"
  by (simp add: updateEngine_def fetchUpdates_def needsRulesUpdate_def needsContainersUpdate_def
        rebuildEngine_def loadContainers_def treeWalk_def dirOf_def baseOf_def HasSuffix_def
        SplitN2_def containerExt_def osOpen_def Join_def Clean_def pathElements_def
        PathSeparator_def newActionnableEngine_def toyOps_def exampleLib_def
        exampleConfig_def startingHids_def brokenContainerWorld_def Let_def split: prod.splits)

section \<open>Properties of container file names\<close>













section \<open>Properties of the ingestion loop\<close>

lemma pipedEvents_append: "pipedEvents (xs @ ys) = pipedEvents xs @ pipedEvents ys"
  by (induction xs rule: pipedEvents.induct) simp_all

lemma postHooked_append: "postHooked (xs @ ys) = postHooked xs @ postHooked ys"
  by (induction xs rule: postHooked.induct) simp_all

lemma matchedEvents_append: "matchedEvents (xs @ ys) = matchedEvents xs @ matchedEvents ys"
  by (induction xs rule: matchedEvents.induct) simp_all

lemma IsHIDSEvent_selfEvent: "IsHIDSEvent h e = selfEvent h e"
  by (auto simp: IsHIDSEvent_def selfEvent_def trackedChildOfAgent_def
           split: sum.splits option.splits)

lemma hookFrameD:
  assumes "hookFrame run" and "run h e = (h', e')"
  shows "eventScanned h' = eventScanned h" and "alertReported h' = alertReported h"
    and "PrintAll h' = PrintAll h"
proof -
  from assms(1) have "eventScanned (fst (run h e)) = eventScanned h \<and>
      alertReported (fst (run h e)) = alertReported h \<and> PrintAll (fst (run h e)) = PrintAll h"
    unfolding hookFrame_def by blast
  with assms(2) show "eventScanned h' = eventScanned h" and "alertReported h' = alertReported h"
    and "PrintAll h' = PrintAll h"
    by simp_all
qed

lemma detect_alert:
  assumes "MatchOrFilter ops (Engine h1) ev1 = ((n, crit, filtered), ev2, eng)"
    and "n \<noteq> [] \<or> filtered" and "CritTresh cfg \<le> crit"
    and "\<not> PrintAll h1" and "\<not> LogAll cfg"
    and "postHooks hk (h1\<lparr>Engine := eng\<rparr>) ev2 = (h3, ev3)" and "\<not> PrintAll h3"
  shows "detect ops hk cfg ev1 (h1, tr) =
           (h3\<lparr>alertReported := alertReported h3 + 1, eventScanned := eventScanned h3 + 1\<rparr>,
            tr @ [Matched ev1, Piped ev2, PostHooksRun ev2])"
  using assms by (auto simp: detect_def Let_def)

lemma detect_filtered:
  assumes "MatchOrFilter ops (Engine h1) ev1 = ((n, crit, filtered), ev2, eng)"
    and "filtered" and "crit < CritTresh cfg" and "EnableFiltering cfg"
    and "\<not> PrintAll h1" and "\<not> LogAll cfg"
  shows "detect ops hk cfg ev1 (h1, tr) =
           (h1\<lparr>Engine := eng, eventScanned := eventScanned h1 + 1\<rparr>,
            tr @ [Matched ev1, Piped (Del GeneInfoPath ev2)])"
  using assms by (auto simp: detect_def Let_def)

lemma detect_counter:
  assumes "hookFrame (postHooks hk)"
  shows "eventScanned (fst (detect ops hk cfg ev (h, tr))) = eventScanned h + 1"
proof -
  obtain n crit filtered ev2 eng where m: "MatchOrFilter ops (Engine h) ev = ((n, crit, filtered), ev2, eng)"
    by (metis prod_cases3)
  obtain h3 ev3 where p: "postHooks hk (h\<lparr>Engine := eng\<rparr>) ev2 = (h3, ev3)"
    by (cases "postHooks hk (h\<lparr>Engine := eng\<rparr>) ev2") auto
  from hookFrameD(1) [OF assms p] have "eventScanned h3 = eventScanned h" by simp
  then show ?thesis
    by (simp add: detect_def m p Let_def)
qed

lemma detect_matched:
  "matchedEvents (snd (detect ops hk cfg ev (h, tr))) = matchedEvents tr @ [ev]"
  by (simp add: detect_def Let_def matchedEvents_append split: prod.splits)

lemma processEvent_skip:
  assumes "preHooks hk h (fst (XMLEventToGoEvtxMap dc xe)) = (h1, ev1)"
    and "IsHIDSEvent h1 ev1" and "\<not> isSysmonProcessTerminate dc ev1"
  shows "fst (processEvent dc ops hk cfg xe (h, tr)) = h1"
    and "matchedEvents (snd (processEvent dc ops hk cfg xe (h, tr))) = matchedEvents tr"
    and "pipedEvents (snd (processEvent dc ops hk cfg xe (h, tr))) = pipedEvents tr"
    and "postHooked (snd (processEvent dc ops hk cfg xe (h, tr))) = postHooked tr"
  using assms
  by (auto simp: processEvent_def Let_def matchedEvents_append pipedEvents_append
        postHooked_append split: prod.splits option.splits)

lemma processEvent_detect:
  assumes "preHooks hk h (fst (XMLEventToGoEvtxMap dc xe)) = (h1, ev1)"
    and "\<not> (IsHIDSEvent h1 ev1 \<and> \<not> isSysmonProcessTerminate dc ev1)"
  shows "\<exists>lg. pipedEvents lg = [] \<and> postHooked lg = [] \<and> matchedEvents lg = [] \<and>
           processEvent dc ops hk cfg xe (h, tr) = detect ops hk cfg ev1 (h1, tr @ lg)"
proof -
  let ?tr1 = "case snd (XMLEventToGoEvtxMap dc xe) of Some e \<Rightarrow> [LogError e] | None \<Rightarrow> []"
  let ?tr2 = "if EnableHooks cfg \<and> \<not> flagProcTermEn h \<and> 0 < eventScanned h \<and>
                    eventScanned h mod 1000 = 0 then [LogWarn] else []"
  let ?lg = "?tr1 @ ?tr2 @ [PreHooksRun (fst (XMLEventToGoEvtxMap dc xe))]"
  have "pipedEvents ?lg = []" "postHooked ?lg = []" "matchedEvents ?lg = []"
    by (simp_all add: pipedEvents_append postHooked_append matchedEvents_append split: option.splits)
  moreover have "processEvent dc ops hk cfg xe (h, tr) = detect ops hk cfg ev1 (h1, tr @ ?lg)"
    using assms
    by (auto simp: processEvent_def Let_def split: prod.splits option.splits)
  ultimately show ?thesis by blast
qed


text \<open>
  Claim C5. \<^verbatim>\<open>IsHIDSEvent\<close> is the self-event test of the specification. For an event
  that passes it after the pre-detection hooks, and is no process termination, the loop
  leaves the agent as the hooks left it: the engine is not run, nothing is piped to the
  forwarder and the post-detection hooks are not run. A process termination event that
  passes the test goes on to the engine.
\<close>

theorem self_events_skipped:
  assumes "preHooks hk h (fst (XMLEventToGoEvtxMap dc xe)) = (h1, ev1)"
    and "selfEvent h1 ev1"
  shows "IsHIDSEvent h1 ev1
       \<and> (\<not> isSysmonProcessTerminate dc ev1 \<longrightarrow>
            fst (processEvent dc ops hk cfg xe (h, tr)) = h1 \<and>
            matchedEvents (snd (processEvent dc ops hk cfg xe (h, tr))) = matchedEvents tr \<and>
            pipedEvents (snd (processEvent dc ops hk cfg xe (h, tr))) = pipedEvents tr \<and>
            postHooked (snd (processEvent dc ops hk cfg xe (h, tr))) = postHooked tr)
       \<and> (isSysmonProcessTerminate dc ev1 \<longrightarrow>
            matchedEvents (snd (processEvent dc ops hk cfg xe (h, tr))) =
              matchedEvents tr @ [ev1])"
proof (intro conjI impI)
  show self: "IsHIDSEvent h1 ev1"
    using assms(2) by (simp add: IsHIDSEvent_selfEvent)
  {
    assume nt: "\<not> isSysmonProcessTerminate dc ev1"
    note sk = processEvent_skip [OF assms(1) self nt, where ops = ops and cfg = cfg and tr = tr]
    from sk(1) show "fst (processEvent dc ops hk cfg xe (h, tr)) = h1" .
    from sk(2) show "matchedEvents (snd (processEvent dc ops hk cfg xe (h, tr))) = matchedEvents tr" .
    from sk(3) show "pipedEvents (snd (processEvent dc ops hk cfg xe (h, tr))) = pipedEvents tr" .
    from sk(4) show "postHooked (snd (processEvent dc ops hk cfg xe (h, tr))) = postHooked tr" .
  }
  assume t: "isSysmonProcessTerminate dc ev1"
  then have "\<not> (IsHIDSEvent h1 ev1 \<and> \<not> isSysmonProcessTerminate dc ev1)" by simp
  from processEvent_detect [OF assms(1) this, where ops = ops and cfg = cfg and tr = tr]
  obtain lg where lg: "matchedEvents lg = []"
    and pe: "processEvent dc ops hk cfg xe (h, tr) = detect ops hk cfg ev1 (h1, tr @ lg)"
    by blast
  show "matchedEvents (snd (processEvent dc ops hk cfg xe (h, tr))) = matchedEvents tr @ [ev1]"
    by (simp add: pe detect_matched matchedEvents_append lg)
qed

text \<open>
  An event of the agent's own process is passed over; an event whose source process the
  tracker knows as a child of the agent is passed over; the agent's own process
  termination is matched by the engine.
\<close>

theorem self_events_skipped_witness:
  "processEvent exampleDecoder (toyOps exampleMatcher) exampleHooks exampleConfig ''{self}''
      (exampleHids, []) =
     (exampleHids, [PreHooksRun [(pathSysmonProcessGUID, VString ''{agent}'')]])
   \<and> matchedEvents (snd (processEvent exampleDecoder (toyOps exampleMatcher) exampleHooks
        exampleConfig ''{child}'' (exampleHids, []))) = []
   \<and> matchedEvents (snd (processEvent exampleDecoder (toyOps exampleMatcher) exampleHooks
        exampleConfig ''{self-terminate}'' (exampleHids, []))) =
       [[(pathSysmonProcessGUID, VString ''{agent}''), (OtherPath ''EventID'', VString ''5'')]]"
proof -
  let ?p = "processEvent exampleDecoder (toyOps exampleMatcher) exampleHooks exampleConfig"
  let ?self = "[(pathSysmonProcessGUID, VString ''{agent}'')]"
  let ?child = "[(pathSysmonSourceProcessGUID, VString ''{child}'')]"
  let ?final = "[(pathSysmonProcessGUID, VString ''{agent}''), (OtherPath ''EventID'', VString ''5'')]"
  have c1: "XMLEventToGoEvtxMap exampleDecoder ''{self}'' = (?self, None)"
    and c2: "XMLEventToGoEvtxMap exampleDecoder ''{child}'' = (?child, None)"
    and c3: "XMLEventToGoEvtxMap exampleDecoder ''{self-terminate}'' = (?final, None)"
    by (simp_all add: XMLEventToGoEvtxMap_def exampleDecoder_def)
  have p1: "preHooks exampleHooks exampleHids (fst (XMLEventToGoEvtxMap exampleDecoder ''{self}'')) =
              (exampleHids, ?self)"
    and p2: "preHooks exampleHooks exampleHids (fst (XMLEventToGoEvtxMap exampleDecoder ''{child}'')) =
              (exampleHids, ?child)"
    and p3: "preHooks exampleHooks exampleHids
               (fst (XMLEventToGoEvtxMap exampleDecoder ''{self-terminate}'')) =
              (exampleHids\<lparr>flagProcTermEn := True\<rparr>, ?final)"
    by (simp_all add: c1 c2 c3 exampleHooks_def)
  have s1: "selfEvent exampleHids ?self"
    and s2: "selfEvent exampleHids ?child"
    and s3: "selfEvent (exampleHids\<lparr>flagProcTermEn := True\<rparr>) ?final"
    by (simp_all add: selfEvent_def trackedChildOfAgent_def GetString_def exampleHids_def)
  have t1: "\<not> isSysmonProcessTerminate exampleDecoder ?self"
    and t2: "\<not> isSysmonProcessTerminate exampleDecoder ?child"
    and t3: "isSysmonProcessTerminate exampleDecoder ?final"
    by (simp_all add: exampleDecoder_def)
  have a: "fst (?p ''{self}'' (exampleHids, [])) = exampleHids"
    using self_events_skipped [OF p1 s1, where ops = "toyOps exampleMatcher" and cfg = exampleConfig and tr = "[]"] t1
    by simp
  have pa: "\<not> PrintAll exampleHids" and sc: "eventScanned exampleHids = 0"
    by (simp_all add: exampleHids_def)
  have "snd (?p ''{self}'' (exampleHids, [])) = [PreHooksRun ?self]"
    using p1 s1 t1 by (simp add: processEvent_def c1 IsHIDSEvent_selfEvent pa sc)
  with a have r1: "?p ''{self}'' (exampleHids, []) = (exampleHids, [PreHooksRun ?self])"
    by (simp add: prod_eq_iff)
  have r2: "matchedEvents (snd (?p ''{child}'' (exampleHids, []))) = []"
    using self_events_skipped [OF p2 s2, where ops = "toyOps exampleMatcher" and cfg = exampleConfig and tr = "[]"] t2
    by simp
  have r3: "matchedEvents (snd (?p ''{self-terminate}'' (exampleHids, []))) = [?final]"
    using self_events_skipped [OF p3 s3, where ops = "toyOps exampleMatcher" and cfg = exampleConfig and tr = "[]"] t3
    by simp
  from r1 r2 r3 show ?thesis by simp
qed

text \<open>
  Claim C4, as the code has it. With hooks that leave the counters alone, one iteration
  adds one to the scanned-event counter unless the event is passed over as a self-event,
  in which case the counter stays. The outcome of the conversion plays no part: a failed
  conversion is logged and the event, as far as it was converted, is processed like any
  other.
\<close>

theorem scanned_counter:
  assumes "hookFrame (preHooks hk)" and "hookFrame (postHooks hk)"
    and "preHooks hk h (fst (XMLEventToGoEvtxMap dc xe)) = (h1, ev1)"
  shows "eventScanned (fst (processEvent dc ops hk cfg xe (h, tr))) =
           (if IsHIDSEvent h1 ev1 \<and> \<not> isSysmonProcessTerminate dc ev1
            then eventScanned h else eventScanned h + 1)
       \<and> (snd (XMLEventToGoEvtxMap dc xe) = Some err \<longrightarrow>
            LogError err \<in> set (snd (processEvent dc ops hk cfg xe (h, tr))))"
proof
  have k: "eventScanned h1 = eventScanned h"
    by (rule hookFrameD(1) [OF assms(1,3)])
  show "eventScanned (fst (processEvent dc ops hk cfg xe (h, tr))) =
           (if IsHIDSEvent h1 ev1 \<and> \<not> isSysmonProcessTerminate dc ev1
            then eventScanned h else eventScanned h + 1)"
  proof (cases "IsHIDSEvent h1 ev1 \<and> \<not> isSysmonProcessTerminate dc ev1")
    case True
    then show ?thesis
      using processEvent_skip(1) [OF assms(3), where ops = ops and cfg = cfg and tr = tr] k by simp
  next
    case False
    from processEvent_detect [OF assms(3) False, where ops = ops and cfg = cfg and tr = tr]
    obtain lg where "processEvent dc ops hk cfg xe (h, tr) = detect ops hk cfg ev1 (h1, tr @ lg)"
      by blast
    then show ?thesis
      using False detect_counter [OF assms(2), where ops = ops and cfg = cfg and ev = ev1 and h = h1 and tr = "tr @ lg"] k by simp
  qed
  show "snd (XMLEventToGoEvtxMap dc xe) = Some err \<longrightarrow>
            LogError err \<in> set (snd (processEvent dc ops hk cfg xe (h, tr)))"
    by (auto simp: processEvent_def detect_def Let_def split: prod.splits if_splits)
qed


text \<open>
  A record that converts and is no self-event is counted once; a self-event is not
  counted; a record whose conversion fails is counted once as well.
\<close>

theorem scanned_counter_witness:
  "eventScanned (fst (processEvent exampleDecoder (toyOps exampleMatcher) exampleHooks
      exampleConfig ''{notepad}'' (exampleHids, []))) = 1
   \<and> eventScanned (fst (processEvent exampleDecoder (toyOps exampleMatcher) exampleHooks
      exampleConfig ''{self}'' (exampleHids, []))) = 0
   \<and> eventScanned (fst (processEvent exampleDecoder (toyOps exampleMatcher) exampleHooks
      exampleConfig ''{garbage}'' (exampleHids, []))) = 1"
proof -
  let ?plain = "[(pathSysmonProcessGUID, VString ''{p3}''),
                   (OtherPath ''Image'', VString ''notepad.exe'')]"
  let ?self = "[(pathSysmonProcessGUID, VString ''{agent}'')]"
  have f1: "hookFrame (preHooks exampleHooks)" and f2: "hookFrame (postHooks exampleHooks)"
    by (simp_all add: hookFrame_def exampleHooks_def)
  have c1: "XMLEventToGoEvtxMap exampleDecoder ''{notepad}'' = (?plain, None)"
    and c2: "XMLEventToGoEvtxMap exampleDecoder ''{self}'' = (?self, None)"
    and c3: "XMLEventToGoEvtxMap exampleDecoder ''{garbage}'' =
               ([], Some (Failure ''unexpected end of JSON input''))"
    by (simp_all add: XMLEventToGoEvtxMap_def exampleDecoder_def)
  have p1: "preHooks exampleHooks exampleHids (fst (XMLEventToGoEvtxMap exampleDecoder ''{notepad}'')) =
              (exampleHids, ?plain)"
    and p2: "preHooks exampleHooks exampleHids (fst (XMLEventToGoEvtxMap exampleDecoder ''{self}'')) =
              (exampleHids, ?self)"
    and p3: "preHooks exampleHooks exampleHids (fst (XMLEventToGoEvtxMap exampleDecoder ''{garbage}'')) =
              (exampleHids, [])"
    by (simp_all add: c1 c2 c3 exampleHooks_def)
  have s1: "\<not> IsHIDSEvent exampleHids ?plain"
    and s2: "IsHIDSEvent exampleHids ?self"
    and s3: "\<not> IsHIDSEvent exampleHids []"
    by (simp_all add: IsHIDSEvent_def GetString_def exampleHids_def)
  have t2: "\<not> isSysmonProcessTerminate exampleDecoder ?self"
    by (simp add: exampleDecoder_def)
  have z: "eventScanned exampleHids = 0"
    by (simp add: exampleHids_def)
  from scanned_counter [OF f1 f2 p1, where ops = "toyOps exampleMatcher" and cfg = exampleConfig
                          and tr = "[]"]
       scanned_counter [OF f1 f2 p2, where ops = "toyOps exampleMatcher" and cfg = exampleConfig
                          and tr = "[]"]
       scanned_counter [OF f1 f2 p3, where ops = "toyOps exampleMatcher" and cfg = exampleConfig
                          and tr = "[]"]
  show ?thesis
    by (simp add: s1 s2 s3 t2 z)
qed

text \<open>
  Claim C4 as stated fails: a record whose conversion fails is not dropped. Its (empty)
  event is matched by the engine, and the scanned-event counter goes from 0 to 1.
\<close>

theorem malformed_record_counted_counterexample:
  "snd (XMLEventToGoEvtxMap exampleDecoder ''{garbage}'') =
     Some (Failure ''unexpected end of JSON input'')
   \<and> eventScanned exampleHids = 0
   \<and> eventScanned (fst (processEvent exampleDecoder (toyOps exampleMatcher) exampleHooks
        exampleConfig ''{garbage}'' (exampleHids, []))) = 1
   \<and> snd (processEvent exampleDecoder (toyOps exampleMatcher) exampleHooks
        exampleConfig ''{garbage}'' (exampleHids, [])) =
       [LogError (Failure ''unexpected end of JSON input''), PreHooksRun [], Matched []]"
  by (simp add: processEvent_def detect_def XMLEventToGoEvtxMap_def exampleDecoder_def
        exampleHooks_def exampleConfig_def exampleHids_def exampleMatcher_def toyOps_def
        IsHIDSEvent_def GetString_def Let_def)

text \<open>
  Claim C6, as the code has it. With hooks that leave the counters and the print mode
  alone, log-all and print-all off, an event that is not passed over as a self-event,
  for which the engine reports at least one matched rule or the filtered flag, and whose
  criticality is at least the threshold, is piped to the forwarder once, as the engine
  left it; the post-detection hooks are run on it once, and the alert counter grows by
  one.
\<close>

theorem alert_forwarded_once:
  assumes "hookFrame (preHooks hk)" and "hookFrame (postHooks hk)"
    and "\<not> LogAll cfg" and "\<not> PrintAll h"
    and "preHooks hk h (fst (XMLEventToGoEvtxMap dc xe)) = (h1, ev1)"
    and "\<not> (IsHIDSEvent h1 ev1 \<and> \<not> isSysmonProcessTerminate dc ev1)"
    and "MatchOrFilter ops (Engine h1) ev1 = ((n, crit, filtered), ev2, eng)"
    and "n \<noteq> [] \<or> filtered"
    and "CritTresh cfg \<le> crit"
  shows "pipedEvents (snd (processEvent dc ops hk cfg xe (h, tr))) = pipedEvents tr @ [ev2]
       \<and> postHooked (snd (processEvent dc ops hk cfg xe (h, tr))) = postHooked tr @ [ev2]
       \<and> alertReported (fst (processEvent dc ops hk cfg xe (h, tr))) = alertReported h + 1"
proof -
  from processEvent_detect [OF assms(5,6), where ops = ops and cfg = cfg and tr = tr]
  obtain lg where lg: "pipedEvents lg = []" "postHooked lg = []"
    and pe: "processEvent dc ops hk cfg xe (h, tr) = detect ops hk cfg ev1 (h1, tr @ lg)"
    by blast
  obtain h3 ev3 where ph: "postHooks hk (h1\<lparr>Engine := eng\<rparr>) ev2 = (h3, ev3)"
    by (cases "postHooks hk (h1\<lparr>Engine := eng\<rparr>) ev2") auto
  have p1: "\<not> PrintAll h1" and a1: "alertReported h1 = alertReported h"
    using hookFrameD(2,3) [OF assms(1,5)] assms(4) by simp_all
  have p3: "\<not> PrintAll h3" and a3: "alertReported h3 = alertReported h"
    using hookFrameD(2,3) [OF assms(2) ph] p1 a1 by simp_all
  have "detect ops hk cfg ev1 (h1, tr @ lg) =
          (h3\<lparr>alertReported := alertReported h3 + 1, eventScanned := eventScanned h3 + 1\<rparr>,
           (tr @ lg) @ [Matched ev1, Piped ev2, PostHooksRun ev2])"
    by (rule detect_alert [OF assms(7,8,9) p1 assms(3) ph p3])
  then show ?thesis
    by (simp add: pe pipedEvents_append postHooked_append lg a3)
qed

text \<open>
  An event matching the rule of criticality 10, with the threshold at 5: one event is
  piped, carrying the engine's annotation, the post-detection hooks run on it, and the
  alert counter is 1.
\<close>

theorem alert_forwarded_once_witness:
  "pipedEvents (snd (processEvent exampleDecoder (toyOps exampleMatcher) exampleHooks
      exampleConfig ''{mimikatz}'' (exampleHids, []))) =
     [[(pathSysmonProcessGUID, VString ''{p1}''), (OtherPath ''Image'', VString ''mimikatz.exe''),
       (GeneInfoPath, VOther ''signatures'')]]
   \<and> postHooked (snd (processEvent exampleDecoder (toyOps exampleMatcher) exampleHooks
      exampleConfig ''{mimikatz}'' (exampleHids, []))) =
     [[(pathSysmonProcessGUID, VString ''{p1}''), (OtherPath ''Image'', VString ''mimikatz.exe''),
       (GeneInfoPath, VOther ''signatures'')]]
   \<and> alertReported (fst (processEvent exampleDecoder (toyOps exampleMatcher) exampleHooks
      exampleConfig ''{mimikatz}'' (exampleHids, []))) = 1"
proof -
  let ?ev = "[(pathSysmonProcessGUID, VString ''{p1}''),
              (OtherPath ''Image'', VString ''mimikatz.exe'')]"
  let ?ev2 = "[(pathSysmonProcessGUID, VString ''{p1}''),
               (OtherPath ''Image'', VString ''mimikatz.exe''),
               (GeneInfoPath, VOther ''signatures'')]"
  have f1: "hookFrame (preHooks exampleHooks)" and f2: "hookFrame (postHooks exampleHooks)"
    by (simp_all add: hookFrame_def exampleHooks_def)
  have la: "\<not> LogAll exampleConfig" and pa: "\<not> PrintAll exampleHids"
    and th: "CritTresh exampleConfig \<le> 10"
    by (simp_all add: exampleConfig_def exampleHids_def)
  have c: "XMLEventToGoEvtxMap exampleDecoder ''{mimikatz}'' = (?ev, None)"
    by (simp add: XMLEventToGoEvtxMap_def exampleDecoder_def)
  have p: "preHooks exampleHooks exampleHids (fst (XMLEventToGoEvtxMap exampleDecoder ''{mimikatz}'')) =
             (exampleHids, ?ev)"
    by (simp add: c exampleHooks_def)
  have ns: "\<not> (IsHIDSEvent exampleHids ?ev \<and> \<not> isSysmonProcessTerminate exampleDecoder ?ev)"
    by (simp add: IsHIDSEvent_def GetString_def exampleHids_def)
  have m: "MatchOrFilter (toyOps exampleMatcher) (Engine exampleHids) ?ev =
             (([''Mimikatz''], 10, False), ?ev2, Engine exampleHids)"
    by (simp add: toyOps_def exampleMatcher_def)
  have hit: "[''Mimikatz''] \<noteq> [] \<or> False" by simp
  from alert_forwarded_once [OF f1 f2 la pa p ns m hit th, of "[]"]
  show ?thesis by (simp add: exampleHids_def)
qed

text \<open>
  Claim C6 as stated fails when the threshold is zero (or below): an event that matches
  nothing has criticality 0, which is not below the threshold, and yet it is neither
  piped nor given to the post-detection hooks, and the alert counter stays at 0.
\<close>

theorem unmatched_event_not_forwarded_counterexample:
  "\<not> IsHIDSEvent exampleHids
        [(pathSysmonProcessGUID, VString ''{p3}''), (OtherPath ''Image'', VString ''notepad.exe'')]
   \<and> fst (MatchOrFilter (toyOps exampleMatcher) (Engine exampleHids)
        [(pathSysmonProcessGUID, VString ''{p3}''), (OtherPath ''Image'', VString ''notepad.exe'')]) =
       ([], 0, False)
   \<and> CritTresh (exampleConfig\<lparr>CritTresh := 0\<rparr>) \<le> 0
   \<and> \<not> LogAll (exampleConfig\<lparr>CritTresh := 0\<rparr>) \<and> \<not> PrintAll exampleHids
   \<and> processEvent exampleDecoder (toyOps exampleMatcher) exampleHooks
        (exampleConfig\<lparr>CritTresh := 0\<rparr>) ''{notepad}'' (exampleHids, []) =
       (exampleHids\<lparr>eventScanned := 1\<rparr>,
        [PreHooksRun [(pathSysmonProcessGUID, VString ''{p3}''),
                      (OtherPath ''Image'', VString ''notepad.exe'')],
         Matched [(pathSysmonProcessGUID, VString ''{p3}''),
                  (OtherPath ''Image'', VString ''notepad.exe'')]])"
  by (simp add: processEvent_def detect_def XMLEventToGoEvtxMap_def exampleDecoder_def
        exampleHooks_def exampleConfig_def exampleHids_def exampleMatcher_def toyOps_def
        IsHIDSEvent_def GetString_def Let_def)

text \<open>
  Claim C7. With pre-detection hooks that leave the counters and the print mode alone,
  filtering on, log-all and print-all off, an event that is not passed over as a
  self-event, for which the engine sets the filtered flag and reports a criticality
  below the threshold, is piped to the forwarder once, with the field at \<open>GeneInfoPath\<close>
  deleted and every other field as the engine left it; the post-detection hooks are not
  run and the alert counter is unchanged.
\<close>

theorem filtered_forwarded_once:
  assumes "hookFrame (preHooks hk)"
    and "\<not> LogAll cfg" and "\<not> PrintAll h" and "EnableFiltering cfg"
    and "preHooks hk h (fst (XMLEventToGoEvtxMap dc xe)) = (h1, ev1)"
    and "\<not> (IsHIDSEvent h1 ev1 \<and> \<not> isSysmonProcessTerminate dc ev1)"
    and "MatchOrFilter ops (Engine h1) ev1 = ((n, crit, True), ev2, eng)"
    and "crit < CritTresh cfg"
  shows "pipedEvents (snd (processEvent dc ops hk cfg xe (h, tr))) =
           pipedEvents tr @ [Del GeneInfoPath ev2]
       \<and> map_of (Del GeneInfoPath ev2) GeneInfoPath = None
       \<and> (\<forall>p. p \<noteq> GeneInfoPath \<longrightarrow> map_of (Del GeneInfoPath ev2) p = map_of ev2 p)
       \<and> postHooked (snd (processEvent dc ops hk cfg xe (h, tr))) = postHooked tr
       \<and> alertReported (fst (processEvent dc ops hk cfg xe (h, tr))) = alertReported h"
proof -
  from processEvent_detect [OF assms(5,6), where ops = ops and cfg = cfg and tr = tr]
  obtain lg where lg: "pipedEvents lg = []" "postHooked lg = []"
    and pe: "processEvent dc ops hk cfg xe (h, tr) = detect ops hk cfg ev1 (h1, tr @ lg)"
    by blast
  have p1: "\<not> PrintAll h1" and a1: "alertReported h1 = alertReported h"
    using hookFrameD(2,3) [OF assms(1,5)] assms(3) by simp_all
  have "detect ops hk cfg ev1 (h1, tr @ lg) =
          (h1\<lparr>Engine := eng, eventScanned := eventScanned h1 + 1\<rparr>,
           (tr @ lg) @ [Matched ev1, Piped (Del GeneInfoPath ev2)])"
    by (rule detect_filtered [OF assms(7) TrueI assms(8,4) p1 assms(2)])
  then show ?thesis
    by (simp add: pe pipedEvents_append postHooked_append lg a1 Del_def delete_conv')
qed

text \<open>
  An event matching the filter rule only: it is piped once without the engine's
  annotation, and the alert counter stays at 0.
\<close>

theorem filtered_forwarded_once_witness:
  "pipedEvents (snd (processEvent exampleDecoder (toyOps exampleMatcher) exampleHooks
      exampleConfig ''{svchost}'' (exampleHids, []))) =
     [[(pathSysmonProcessGUID, VString ''{p2}''), (OtherPath ''Image'', VString ''svchost.exe'')]]
   \<and> postHooked (snd (processEvent exampleDecoder (toyOps exampleMatcher) exampleHooks
      exampleConfig ''{svchost}'' (exampleHids, []))) = []
   \<and> alertReported (fst (processEvent exampleDecoder (toyOps exampleMatcher) exampleHooks
      exampleConfig ''{svchost}'' (exampleHids, []))) = 0"
proof -
  let ?ev = "[(pathSysmonProcessGUID, VString ''{p2}''),
              (OtherPath ''Image'', VString ''svchost.exe'')]"
  let ?ev2 = "[(pathSysmonProcessGUID, VString ''{p2}''),
               (OtherPath ''Image'', VString ''svchost.exe''),
               (GeneInfoPath, VOther ''signatures'')]"
  have f1: "hookFrame (preHooks exampleHooks)"
    by (simp add: hookFrame_def exampleHooks_def)
  have la: "\<not> LogAll exampleConfig" and pa: "\<not> PrintAll exampleHids"
    and ef: "EnableFiltering exampleConfig" and th: "0 < CritTresh exampleConfig"
    by (simp_all add: exampleConfig_def exampleHids_def)
  have c: "XMLEventToGoEvtxMap exampleDecoder ''{svchost}'' = (?ev, None)"
    by (simp add: XMLEventToGoEvtxMap_def exampleDecoder_def)
  have p: "preHooks exampleHooks exampleHids (fst (XMLEventToGoEvtxMap exampleDecoder ''{svchost}'')) =
             (exampleHids, ?ev)"
    by (simp add: c exampleHooks_def)
  have ns: "\<not> (IsHIDSEvent exampleHids ?ev \<and> \<not> isSysmonProcessTerminate exampleDecoder ?ev)"
    by (simp add: IsHIDSEvent_def GetString_def exampleHids_def)
  have m: "MatchOrFilter (toyOps exampleMatcher) (Engine exampleHids) ?ev =
             (([], 0, True), ?ev2, Engine exampleHids)"
    by (simp add: toyOps_def exampleMatcher_def)
  from filtered_forwarded_once [OF f1 la pa ef p ns m th, of "[]"]
  show ?thesis by (simp add: exampleHids_def Del_def AList.delete_eq)
qed

end
